theory Spec2Isabelle
  imports Complex_Main
begin

section \<open>The ledger store\<close>

text \<open>
  The marketplace keeps everything in SQL tables (\<^verbatim>\<open>src/src/db/index.js\<close>). Each table
  the task, dispute and reputation code touches is a field of the record \<open>pit\<close>: the
  agents and tasks tables are maps from the primary key, the disputes table (searched by
  task as well as by id) is the list of its rows with their ids, and an append-only
  table with an autoincrement key is the list of its rows in insertion order. Credits
  and rewards are SQL INTEGER columns, modelled as unbounded \<open>int\<close>; the reputation
  column is REAL,
  modelled as \<open>real\<close> (exact arithmetic stands in for the doubles). Timestamps
  (\<^verbatim>\<open>datetime('now')\<close>) are natural numbers handed to each handler as \<open>now\<close>.
  Webhook delivery and the JSON response bodies leave no trace in the tables and are
  left out; of a notification only the recipient, the type and the title are kept, of
  a task-log entry the task, the agent and the action.
\<close>

type_synonym agent_id = string
type_synonym task_id = string
type_synonym dispute_id = string

record agent =
  name :: string
  skills :: "string list"
  credits :: int
  reputation :: real
  tasks_completed :: nat
  tasks_posted :: nat
  tasks_failed :: nat

datatype task_status = Open | Claimed | Submitted | Completed | Cancelled | Disputed

record task =
  title :: string
  description :: string
  requester_id :: agent_id
  worker_id :: "agent_id option"
  reward :: int
  required_skills :: "string list"
  proof_required :: string
  deadline :: "string option"
  status :: task_status
  proof_submitted :: "string option"
  claimed_at :: "nat option"
  submitted_at :: "nat option"
  completed_at :: "nat option"

record transaction =
  tx_agent_id :: agent_id
  tx_type :: string
  amount :: int
  balance_after :: int
  tx_description :: string
  tx_related_task_id :: "task_id option"
  tx_related_agent_id :: "agent_id option"

datatype dispute_status = DisputeOpen | DisputeResolved

record dispute =
  d_task_id :: task_id
  raised_by :: agent_id
  d_reason :: string
  evidence :: "string option"
  d_status :: dispute_status
  resolution :: "string option"
  resolved_by :: "agent_id option"
  resolved_at :: "nat option"

record reputation_event =
  re_agent_id :: agent_id
  event_type :: string
  points :: real
  re_reason :: string
  re_related_task_id :: "task_id option"
  re_related_agent_id :: "agent_id option"

record badge =
  b_agent_id :: agent_id
  badge_type :: string
  badge_name :: string
  b_description :: string

record notification =
  n_agent_id :: agent_id
  n_type :: string
  n_title :: string

record task_log_entry =
  l_task_id :: task_id
  l_agent_id :: agent_id
  action :: string

record skill_endorsement =
  se_agent_id :: agent_id
  endorsed_by :: agent_id
  skill :: string

record review =
  reviewer_id :: agent_id
  reviewee_id :: agent_id
  rating :: int

record pit =
  agents :: "agent_id \<rightharpoonup> agent"
  tasks :: "task_id \<rightharpoonup> task"
  disputes :: "(dispute_id \<times> dispute) list"
  transactions :: "transaction list"
  reputation_events :: "reputation_event list"
  badges :: "badge list"
  notifications :: "notification list"
  task_log :: "task_log_entry list"
  skill_endorsements :: "skill_endorsement list"
  reviews :: "review list"

text \<open>\<^verbatim>\<open>UPDATE agents SET ... WHERE id = ?\<close>: no row, no change.\<close>

definition update_agent :: "agent_id \<Rightarrow> (agent \<Rightarrow> agent) \<Rightarrow> pit \<Rightarrow> pit" where
  "update_agent a f s =
     (case agents s a of
        None \<Rightarrow> s
      | Some r \<Rightarrow> s\<lparr>agents := (agents s)(a \<mapsto> f r)\<rparr>)"

definition update_task :: "task_id \<Rightarrow> (task \<Rightarrow> task) \<Rightarrow> pit \<Rightarrow> pit" where
  "update_task t f s =
     (case tasks s t of
        None \<Rightarrow> s
      | Some r \<Rightarrow> s\<lparr>tasks := (tasks s)(t \<mapsto> f r)\<rparr>)"

definition update_dispute :: "dispute_id \<Rightarrow> (dispute \<Rightarrow> dispute) \<Rightarrow> pit \<Rightarrow> pit" where
  "update_dispute d f s =
     s\<lparr>disputes := map (\<lambda>(k, r). if k = d then (k, f r) else (k, r)) (disputes s)\<rparr>"

text \<open>The balance an agent row holds; an unknown agent has none.\<close>

definition credits_of :: "pit \<Rightarrow> agent_id \<Rightarrow> int option" where
  "credits_of s a = map_option credits (agents s a)"

section \<open>Reputation ledger (\<^verbatim>\<open>src/src/reputation.js\<close>)\<close>

text \<open>\<^verbatim>\<open>v || null\<close> on a string: a missing value and the empty string are stored as NULL.\<close>

definition or_null :: "string option \<Rightarrow> string option" where
  "or_null v = (case v of None \<Rightarrow> None | Some x \<Rightarrow> if x = [] then None else Some x)"

record reputation_event_def =
  ev_points :: real
  ev_description :: string

text \<open>The table \<^verbatim>\<open>REPUTATION_EVENTS\<close> with its sixteen keys, in the order of the source.\<close>

definition REPUTATION_EVENTS :: "(string \<times> reputation_event_def) list" where
  "REPUTATION_EVENTS =
    [(''TASK_COMPLETED'', \<lparr>ev_points = 3, ev_description = ''Completed a task''\<rparr>),
     (''TASK_COMPLETED_EARLY'', \<lparr>ev_points = 1, ev_description = ''Completed task before deadline''\<rparr>),
     (''EXCELLENT_REVIEW'', \<lparr>ev_points = 2, ev_description = ''Received 5-star review''\<rparr>),
     (''GOOD_REVIEW'', \<lparr>ev_points = 1, ev_description = ''Received 4-star review''\<rparr>),
     (''SKILL_ENDORSED'', \<lparr>ev_points = 1 / 2, ev_description = ''Skill endorsed by another agent''\<rparr>),
     (''DISPUTE_WON'', \<lparr>ev_points = 2, ev_description = ''Won a dispute''\<rparr>),
     (''FIRST_TASK'', \<lparr>ev_points = 5, ev_description = ''Completed first task''\<rparr>),
     (''TASK_STREAK_5'', \<lparr>ev_points = 3, ev_description = ''Completed 5 tasks in a row''\<rparr>),
     (''TASK_STREAK_10'', \<lparr>ev_points = 5, ev_description = ''Completed 10 tasks in a row''\<rparr>),
     (''HIGH_VALUE_TASK'', \<lparr>ev_points = 2, ev_description = ''Completed high-value task (50+ credits)''\<rparr>),
     (''TASK_REJECTED'', \<lparr>ev_points = - 5, ev_description = ''Work was rejected''\<rparr>),
     (''TASK_ABANDONED'', \<lparr>ev_points = - 2, ev_description = ''Abandoned a claimed task''\<rparr>),
     (''DISPUTE_LOST'', \<lparr>ev_points = - 3, ev_description = ''Lost a dispute''\<rparr>),
     (''POOR_REVIEW'', \<lparr>ev_points = - 2, ev_description = ''Received 1-2 star review''\<rparr>),
     (''DEADLINE_MISSED'', \<lparr>ev_points = - 3, ev_description = ''Missed task deadline''\<rparr>),
     (''INACTIVE_CLAIM'', \<lparr>ev_points = - 1, ev_description = ''Claimed task went inactive''\<rparr>)]"

definition createNotification :: "agent_id \<Rightarrow> string \<Rightarrow> string \<Rightarrow> pit \<Rightarrow> pit" where
  "createNotification a ty ttl s =
     s\<lparr>notifications := notifications s @ [\<lparr>n_agent_id = a, n_type = ty, n_title = ttl\<rparr>]\<rparr>"

text \<open>The statistics a badge predicate reads: the agent row and four counts.\<close>

record stats =
  st_credits :: int
  st_reputation :: real
  st_tasks_completed :: nat
  st_tasks_posted :: nat
  st_tasks_failed :: nat
  skill_count :: nat
  endorsement_count :: nat
  reviews_given :: nat
  positive_reviews :: nat

record badge_def =
  bd_type :: string
  bd_name :: string
  bd_description :: string
  check :: "stats \<Rightarrow> bool"

definition BADGES :: "badge_def list" where
  "BADGES =
    [\<lparr>bd_type = ''newcomer'', bd_name = ''Newcomer'',
      bd_description = ''Registered on The Pit'', check = (\<lambda>_. True)\<rparr>,
     \<lparr>bd_type = ''first_task'', bd_name = ''First Blood'',
      bd_description = ''Completed your first task'',
      check = (\<lambda>st. st_tasks_completed st \<ge> 1)\<rparr>,
     \<lparr>bd_type = ''task_master_10'', bd_name = ''Task Master'',
      bd_description = ''Completed 10 tasks'',
      check = (\<lambda>st. st_tasks_completed st \<ge> 10)\<rparr>,
     \<lparr>bd_type = ''task_master_50'', bd_name = ''Task Legend'',
      bd_description = ''Completed 50 tasks'',
      check = (\<lambda>st. st_tasks_completed st \<ge> 50)\<rparr>,
     \<lparr>bd_type = ''task_master_100'', bd_name = ''Task God'',
      bd_description = ''Completed 100 tasks'',
      check = (\<lambda>st. st_tasks_completed st \<ge> 100)\<rparr>,
     \<lparr>bd_type = ''employer_10'', bd_name = ''Job Creator'',
      bd_description = ''Posted 10 tasks'',
      check = (\<lambda>st. st_tasks_posted st \<ge> 10)\<rparr>,
     \<lparr>bd_type = ''employer_50'', bd_name = ''Major Employer'',
      bd_description = ''Posted 50 tasks'',
      check = (\<lambda>st. st_tasks_posted st \<ge> 50)\<rparr>,
     \<lparr>bd_type = ''wealthy'', bd_name = ''Wealthy'',
      bd_description = ''Accumulated 1000 credits'',
      check = (\<lambda>st. st_credits st \<ge> 1000)\<rparr>,
     \<lparr>bd_type = ''elite_wealth'', bd_name = ''Elite'',
      bd_description = ''Accumulated 10000 credits'',
      check = (\<lambda>st. st_credits st \<ge> 10000)\<rparr>,
     \<lparr>bd_type = ''trusted'', bd_name = ''Trusted'',
      bd_description = ''Reached 75 reputation'',
      check = (\<lambda>st. st_reputation st \<ge> 75)\<rparr>,
     \<lparr>bd_type = ''legendary'', bd_name = ''Legendary'',
      bd_description = ''Reached 90 reputation'',
      check = (\<lambda>st. st_reputation st \<ge> 90)\<rparr>,
     \<lparr>bd_type = ''perfect'', bd_name = ''Perfectionist'',
      bd_description = ''Maintained 100% success rate with 10+ tasks'',
      check = (\<lambda>st. st_tasks_completed st \<ge> 10 \<and> st_tasks_failed st = 0)\<rparr>,
     \<lparr>bd_type = ''skilled_5'', bd_name = ''Multi-Talented'',
      bd_description = ''Listed 5+ skills'',
      check = (\<lambda>st. skill_count st \<ge> 5)\<rparr>,
     \<lparr>bd_type = ''endorsed'', bd_name = ''Endorsed'',
      bd_description = ''Received skill endorsement from another agent'',
      check = (\<lambda>st. endorsement_count st \<ge> 1)\<rparr>,
     \<lparr>bd_type = ''highly_endorsed'', bd_name = ''Highly Endorsed'',
      bd_description = ''Received 10+ skill endorsements'',
      check = (\<lambda>st. endorsement_count st \<ge> 10)\<rparr>,
     \<lparr>bd_type = ''reviewer'', bd_name = ''Critic'',
      bd_description = ''Left 10 reviews'',
      check = (\<lambda>st. reviews_given st \<ge> 10)\<rparr>,
     \<lparr>bd_type = ''well_reviewed'', bd_name = ''Well Reviewed'',
      bd_description = ''Received 10+ positive reviews'',
      check = (\<lambda>st. positive_reviews st \<ge> 10)\<rparr>]"

definition agent_stats :: "pit \<Rightarrow> agent_id \<Rightarrow> agent \<Rightarrow> stats" where
  "agent_stats s a r =
     \<lparr>st_credits = credits r, st_reputation = reputation r,
      st_tasks_completed = tasks_completed r, st_tasks_posted = tasks_posted r,
      st_tasks_failed = tasks_failed r,
      skill_count = length (skills r),
      endorsement_count = length (filter (\<lambda>e. se_agent_id e = a) (skill_endorsements s)),
      reviews_given = length (filter (\<lambda>v. reviewer_id v = a) (reviews s)),
      positive_reviews =
        length (filter (\<lambda>v. reviewee_id v = a \<and> rating v \<ge> 4) (reviews s))\<rparr>"

text \<open>
  The loop of \<^verbatim>\<open>checkAndAwardBadges\<close> over the badge table: the badges the agent
  already holds (\<open>existing\<close>) are read once, before the loop.
\<close>

fun award_badges :: "agent_id \<Rightarrow> stats \<Rightarrow> string list \<Rightarrow> badge_def list \<Rightarrow> pit \<Rightarrow> pit" where
  "award_badges a st existing [] s = s"
| "award_badges a st existing (b # bs) s =
     (if bd_type b \<notin> set existing \<and> check b st
      then award_badges a st existing bs
             (createNotification a ''badge'' ''New Badge Earned!''
                (s\<lparr>badges := badges s @
                     [\<lparr>b_agent_id = a, badge_type = bd_type b, badge_name = bd_name b,
                       b_description = bd_description b\<rparr>]\<rparr>))
      else award_badges a st existing bs s)"

definition checkAndAwardBadges :: "agent_id \<Rightarrow> pit \<Rightarrow> pit" where
  "checkAndAwardBadges a s =
     (case agents s a of
        None \<Rightarrow> s
      | Some r \<Rightarrow>
          award_badges a (agent_stats s a r)
            (map badge_type (filter (\<lambda>b. b_agent_id b = a) (badges s))) BADGES s)"

text \<open>
  The options object of \<^verbatim>\<open>recordReputationEvent\<close>. \<^verbatim>\<open>options.multiplier || 1\<close>
  takes 1 for a missing multiplier and for 0; likewise a missing or empty reason gives
  way to the event's description.
\<close>

record rep_options =
  multiplier :: "real option"
  opt_reason :: "string option"
  taskId :: "task_id option"
  relatedAgentId :: "agent_id option"

definition no_options :: rep_options where
  "no_options = \<lparr>multiplier = None, opt_reason = None, taskId = None, relatedAgentId = None\<rparr>"

definition or_default :: "string option \<Rightarrow> string \<Rightarrow> string" where
  "or_default v d = (case v of None \<Rightarrow> d | Some x \<Rightarrow> if x = [] then d else x)"

definition clamp_reputation :: "real \<Rightarrow> real" where
  "clamp_reputation x = max 0 (min 100 x)"

definition event_points :: "reputation_event_def \<Rightarrow> rep_options \<Rightarrow> real" where
  "event_points ev opts =
     ev_points ev * (case multiplier opts of None \<Rightarrow> 1 | Some m \<Rightarrow> if m = 0 then 1 else m)"

text \<open>
  The table is a plain object literal, so \<^verbatim>\<open>REPUTATION_EVENTS[eventType]\<close> also finds
  the properties every object inherits from \<^verbatim>\<open>Object.prototype\<close>. What it finds
  under one of these names is a function (or, for \<^verbatim>\<open>__proto__\<close>, the prototype
  object): a truthy value without \<^verbatim>\<open>points\<close> and without \<^verbatim>\<open>description\<close>.
\<close>

definition Object_prototype_names :: "string list" where
  "Object_prototype_names =
    [''constructor'', ''__defineGetter__'', ''__defineSetter__'', ''hasOwnProperty'',
     ''__lookupGetter__'', ''__lookupSetter__'', ''isPrototypeOf'', ''propertyIsEnumerable'',
     ''toString'', ''valueOf'', ''__proto__'', ''toLocaleString'']"

text \<open>
  How a call of \<^verbatim>\<open>recordReputationEvent\<close> ends: it returns \<^verbatim>\<open>null\<close>, it throws,
  or it returns the recorded \<^verbatim>\<open>{eventType, points, reason}\<close>.
\<close>

datatype rep_result = ReturnsNull | Throws | Returns string real string

text \<open>
  \<^verbatim>\<open>recordReputationEvent\<close>; the second component is the store afterwards. The guard
  \<^verbatim>\<open>if (!event)\<close> fires when the lookup finds nothing. For an inherited name it does
  not fire: the points are \<^verbatim>\<open>undefined * multiplier\<close>, that is NaN, and the reason
  is \<^verbatim>\<open>undefined\<close> unless the caller gave one. The INSERT cannot store them
  (\<^verbatim>\<open>undefined\<close> cannot be bound, and NaN is bound as NULL into the column
  \<^verbatim>\<open>points REAL NOT NULL\<close>): the statement throws and no row is stored. Every
  caller in the repository passes one of the sixteen keys, so the handlers below go on
  with the store the call returns.
\<close>

definition recordReputationEvent ::
  "agent_id \<Rightarrow> string \<Rightarrow> rep_options \<Rightarrow> pit \<Rightarrow> rep_result \<times> pit" where
  "recordReputationEvent a eventType opts s =
     (case map_of REPUTATION_EVENTS eventType of
        None \<Rightarrow>
          if eventType \<in> set Object_prototype_names then (Throws, s) else (ReturnsNull, s)
      | Some ev \<Rightarrow>
          let pts = event_points ev opts;
              rsn = or_default (opt_reason opts) (ev_description ev);
              s1 = s\<lparr>reputation_events := reputation_events s @
                      [\<lparr>re_agent_id = a, event_type = eventType, points = pts,
                        re_reason = rsn, re_related_task_id = or_null (taskId opts),
                        re_related_agent_id = or_null (relatedAgentId opts)\<rparr>]\<rparr>;
              s2 = update_agent a
                     (\<lambda>r. r\<lparr>reputation := clamp_reputation (reputation r + pts)\<rparr>) s1;
              s3 = checkAndAwardBadges a s2;
              s4 = (if \<bar>pts\<bar> \<ge> 2
                    then createNotification a ''reputation''
                           (if pts > 0 then ''Reputation Increased'' else ''Reputation Decreased'')
                           s3
                    else s3)
          in (Returns eventType pts rsn, s4))"

section \<open>Input sanitization (\<^verbatim>\<open>src/src/utils/sanitize.js\<close>)\<close>

text \<open>
  Strings are ASCII here: \<^verbatim>\<open>trim\<close> strips the six ASCII white-space characters,
  and \<open>length\<close> counts characters as JavaScript counts them on such strings.
\<close>

definition is_space :: "char \<Rightarrow> bool" where
  "is_space c = (c \<in> {CHR '' '', CHR 0x09, CHR 0x0A, CHR 0x0B, CHR 0x0C, CHR 0x0D})"

definition trim :: "string \<Rightarrow> string" where
  "trim str = rev (dropWhile is_space (rev (dropWhile is_space str)))"

definition htmlEntities :: "char \<Rightarrow> string" where
  "htmlEntities c =
     (if c = CHR ''&'' then ''&amp;''
      else if c = CHR ''<'' then ''&lt;''
      else if c = CHR ''>'' then ''&gt;''
      else if c = CHR 0x22 then ''&quot;''
      else if c = CHR 0x27 then ''&#x27;''
      else if c = CHR ''/'' then ''&#x2F;''
      else if c = CHR 0x60 then ''&#x60;''
      else if c = CHR ''='' then ''&#x3D;''
      else [c])"

definition escapeHtml :: "string \<Rightarrow> string" where
  "escapeHtml str = concat (map htmlEntities str)"

text \<open>\<^verbatim>\<open>options.maxLength &&\<close>: a missing limit and the limit 0 both switch the cut off.\<close>

definition sanitizeString :: "string \<Rightarrow> nat option \<Rightarrow> string" where
  "sanitizeString str maxLength =
     (let result = trim (filter (\<lambda>c. c \<noteq> CHR 0x00) str);
          result = (case maxLength of
                      None \<Rightarrow> result
                    | Some m \<Rightarrow> if m \<noteq> 0 \<and> length result > m then take m result else result)
      in escapeHtml result)"

definition sanitizeTitle :: "string \<Rightarrow> string" where
  "sanitizeTitle ttl = sanitizeString ttl (Some 200)"

definition sanitizeDescription :: "string \<Rightarrow> string" where
  "sanitizeDescription d = sanitizeString d (Some 10000)"

definition sanitizeProof :: "string \<Rightarrow> string" where
  "sanitizeProof p = sanitizeString p (Some 50000)"

definition sanitizeSkills :: "string list \<Rightarrow> string list" where
  "sanitizeSkills sk =
     take 20 (filter (\<lambda>x. length x > 0) (map (\<lambda>x. sanitizeString x (Some 50)) sk))"

text \<open>
  A JSON number as the handlers below can be given one: a safe integer, that is an
  integer of magnitude below \<open>2 ^ 53\<close>. These are the numbers that a double holds
  exactly and that \<^verbatim>\<open>String\<close> prints digit by digit, so that \<^verbatim>\<open>parseInt\<close>, which
  reads the printed text, returns the number itself. Fractions and numbers of larger
  magnitude (printed rounded, and from \<open>10 ^ 21\<close> on as \<^verbatim>\<open>1e+21\<close>, of which
  \<^verbatim>\<open>parseInt\<close> reads only the leading digit) are not values of this type.
\<close>

typedef safe_integer = "{n :: int. - (2 ^ 53) < n \<and> n < 2 ^ 53}"
  morphisms number_value safe_integer_of
  by (rule exI [of _ 0]) simp

text \<open>
  A value of a JSON request body where a number is expected: missing, a number, or
  a string. \<open>truthy\<close> is JavaScript's \<^verbatim>\<open>!!v\<close>.
\<close>

datatype jsval = JUndefined | JNum safe_integer | JStr string

fun truthy :: "jsval \<Rightarrow> bool" where
  "truthy JUndefined = False"
| "truthy (JNum n) = (number_value n \<noteq> 0)"
| "truthy (JStr str) = (str \<noteq> [])"

definition is_digit :: "char \<Rightarrow> bool" where
  "is_digit c = (48 \<le> (of_char c :: nat) \<and> (of_char c :: nat) \<le> 57)"

definition digit_val :: "char \<Rightarrow> nat" where
  "digit_val c = of_char c - 48"

definition digits_val :: "string \<Rightarrow> nat" where
  "digits_val ds = foldl (\<lambda>acc c. 10 * acc + digit_val c) 0 ds"

text \<open>
  \<^verbatim>\<open>parseInt(value, 10)\<close> on a string: leading white space, an optional sign, then
  the longest run of decimal digits; \<open>None\<close> is NaN. The value of the run is taken
  exactly. JavaScript returns the nearest double, which differs only for a value of
  \<open>2 ^ 53\<close> or more; \<^verbatim>\<open>sanitizeInt\<close> is called with both bounds wherever the
  repository calls it (1 and 1000000 for a reward, 1 and 5 for a rating), and such a
  value lies above them just as its double does.
\<close>

definition parse_digits :: "string \<Rightarrow> nat option" where
  "parse_digits str =
     (let ds = takeWhile is_digit str in if ds = [] then None else Some (digits_val ds))"

fun parseInt :: "jsval \<Rightarrow> int option" where
  "parseInt JUndefined = None"
| "parseInt (JNum n) = Some (number_value n)"
| "parseInt (JStr str) =
     (case dropWhile is_space str of
        [] \<Rightarrow> None
      | c # cs \<Rightarrow>
          if c = CHR ''-'' then map_option (\<lambda>n. - int n) (parse_digits cs)
          else if c = CHR ''+'' then map_option int (parse_digits cs)
          else map_option int (parse_digits (c # cs)))"

record int_options =
  opt_min :: "int option"
  opt_max :: "int option"
  opt_default :: "int option"

definition sanitizeInt :: "jsval \<Rightarrow> int_options \<Rightarrow> int" where
  "sanitizeInt v opts =
     (case parseInt v of
        None \<Rightarrow> (case opt_default opts of None \<Rightarrow> 0 | Some d \<Rightarrow> d)
      | Some parsed \<Rightarrow>
          if opt_min opts \<noteq> None \<and> parsed < the (opt_min opts) then the (opt_min opts)
          else if opt_max opts \<noteq> None \<and> parsed > the (opt_max opts) then the (opt_max opts)
          else parsed)"

text \<open>Decimal text of a number, as a template literal prints it.\<close>

definition digit_char :: "nat \<Rightarrow> char" where
  "digit_char d = char_of (48 + d)"

fun decimal_of_nat :: "nat \<Rightarrow> string" where
  "decimal_of_nat n =
     (if 10 \<le> n then decimal_of_nat (n div 10) else []) @ [digit_char (n mod 10)]"

declare decimal_of_nat.simps [simp del]

definition decimal_of_int :: "int \<Rightarrow> string" where
  "decimal_of_int i =
     (if 0 \<le> i then decimal_of_nat (nat i) else CHR ''-'' # decimal_of_nat (nat (- i)))"

section \<open>Escrow accountant (\<^verbatim>\<open>recordTransaction\<close>)\<close>

text \<open>
  The helper of the transactions routes (\<^verbatim>\<open>require('./transactions')\<close> in the task
  and dispute routes); its source is in \<^verbatim>\<open>src/src/autoSeed.js\<close>, lines 493 to 511.
\<close>

text \<open>
  \<^verbatim>\<open>recordTransaction\<close> reads the agent's balance as it stands when it is called
  (\<^verbatim>\<open>agent?.credits || 0\<close>), adds the amount and stores the row.
\<close>

definition recordTransaction ::
  "agent_id \<Rightarrow> string \<Rightarrow> int \<Rightarrow> string \<Rightarrow> task_id option \<Rightarrow> agent_id option \<Rightarrow> pit \<Rightarrow> pit" where
  "recordTransaction a ty amt descr tId rId s =
     (let balanceAfter = (case agents s a of None \<Rightarrow> 0 | Some r \<Rightarrow> credits r) + amt
      in s\<lparr>transactions := transactions s @
             [\<lparr>tx_agent_id = a, tx_type = ty, amount = amt, balance_after = balanceAfter,
               tx_description = descr, tx_related_task_id = or_null tId,
               tx_related_agent_id = or_null rId\<rparr>]\<rparr>)"

text \<open>The sum the spec's escrow invariant speaks of: all amounts booked on a task.\<close>

definition task_tx_sum :: "pit \<Rightarrow> task_id \<Rightarrow> int" where
  "task_tx_sum s t =
     sum_list (map amount (filter (\<lambda>x. tx_related_task_id x = Some t) (transactions s)))"

section \<open>Task lifecycle (\<^verbatim>\<open>src/src/routes/tasks.js\<close>)\<close>

text \<open>
  One constructor for each error response of the handlers below; \<open>http_status\<close> is the
  status code the handler sends with it. \<open>ServerError\<close> is an exception thrown by a
  statement (a violated NOT NULL or PRIMARY KEY constraint): what ran before it stays.
\<close>

datatype error =
    AuthenticationRequired
  | FieldsRequired
  | InvalidTitle
  | InvalidDescription
  | RewardTooLow
  | InsufficientCredits
  | TaskNotFound
  | TaskNotOpen
  | OwnTask
  | ClaimedByAnother
  | ProofRequired
  | NotWorker
  | NotClaimed
  | ApprovalRequired
  | NotRequester
  | NotSubmitted
  | DisputeFieldsRequired
  | NotInvolved
  | NotDisputable
  | DisputeExists
  | InvalidDecision
  | DisputeNotFound
  | DisputeNotOpen
  | NotAuthorizedToResolve
  | ServerError

fun http_status :: "error \<Rightarrow> nat" where
  "http_status AuthenticationRequired = 401"
| "http_status TaskNotFound = 404"
| "http_status DisputeNotFound = 404"
| "http_status NotWorker = 403"
| "http_status NotRequester = 403"
| "http_status NotInvolved = 403"
| "http_status NotAuthorizedToResolve = 403"
| "http_status ClaimedByAnother = 409"
| "http_status ServerError = 500"
| "http_status _ = 400"

text \<open>A handler's outcome: the error or the message of the success response, and the store.\<close>

type_synonym outcome = "(error + string) \<times> pit"

text \<open>
  The auth middleware loads \<^verbatim>\<open>req.agent\<close> from the agents table just before the
  handler runs; \<open>caller\<close> is the id behind the API key, if any.
\<close>

definition authenticate :: "agent_id option \<Rightarrow> pit \<Rightarrow> (agent_id \<times> agent) option" where
  "authenticate caller s =
     (case caller of
        None \<Rightarrow> None
      | Some a \<Rightarrow> map_option (\<lambda>r. (a, r)) (agents s a))"

definition logTaskEvent :: "task_id \<Rightarrow> agent_id \<Rightarrow> string \<Rightarrow> pit \<Rightarrow> pit" where
  "logTaskEvent t a act s =
     s\<lparr>task_log := task_log s @ [\<lparr>l_task_id = t, l_agent_id = a, action = act\<rparr>]\<rparr>"

definition new_task ::
  "string \<Rightarrow> string \<Rightarrow> agent_id \<Rightarrow> int \<Rightarrow> string list \<Rightarrow> string \<Rightarrow> string option \<Rightarrow> task" where
  "new_task ttl descr a rew sk pr dl =
     \<lparr>title = ttl, description = descr, requester_id = a, worker_id = None, reward = rew,
      required_skills = sk, proof_required = pr, deadline = dl, status = Open,
      proof_submitted = None, claimed_at = None, submitted_at = None, completed_at = None\<rparr>"

text \<open>
  \<^verbatim>\<open>POST /\<close> (create a task). \<open>new_id\<close> is the id \<^verbatim>\<open>nanoid\<close> draws; the INSERT
  throws when the id is taken, after the credits were debited.
\<close>

definition post_task ::
  "agent_id option \<Rightarrow> task_id \<Rightarrow> string option \<Rightarrow> string option \<Rightarrow> jsval \<Rightarrow>
   string list \<Rightarrow> string option \<Rightarrow> string option \<Rightarrow> pit \<Rightarrow> outcome" where
  "post_task caller new_id rawTitle rawDescription rawReward rawSkills rawProofRequired dl s =
     (case authenticate caller s of
        None \<Rightarrow> (Inl AuthenticationRequired, s)
      | Some (aid, agent) \<Rightarrow>
          if or_null rawTitle = None \<or> or_null rawDescription = None \<or> \<not> truthy rawReward
          then (Inl FieldsRequired, s)
          else
            let ttl = sanitizeTitle (the rawTitle);
                descr = sanitizeDescription (the rawDescription);
                rew = sanitizeInt rawReward
                        \<lparr>opt_min = Some 1, opt_max = Some 1000000, opt_default = None\<rparr>;
                sk = sanitizeSkills rawSkills;
                pr = (case rawProofRequired of
                        None \<Rightarrow> ''text''
                      | Some x \<Rightarrow> if x \<in> {''text'', ''url'', ''file''} then x else ''text'')
            in
              if length ttl < 1 then (Inl InvalidTitle, s)
              else if length descr < 1 then (Inl InvalidDescription, s)
              else if rew < 1 then (Inl RewardTooLow, s)
              else if credits agent < rew then (Inl InsufficientCredits, s)
              else
                let s1 = update_agent aid
                           (\<lambda>r. r\<lparr>credits := credits r - rew,
                                  tasks_posted := tasks_posted r + 1\<rparr>) s
                in
                  if tasks s1 new_id \<noteq> None then (Inl ServerError, s1)
                  else
                    let s2 = s1\<lparr>tasks := (tasks s1)(new_id \<mapsto> new_task ttl descr aid rew sk pr (or_null dl))\<rparr>;
                        s3 = logTaskEvent new_id aid ''created'' s2;
                        s4 = recordTransaction aid ''task_escrow'' (- rew)
                               (''Escrowed for task: '' @ ttl) (Some new_id) None s3;
                        s5 = checkAndAwardBadges aid s4
                    in (Inr ''Task posted. Credits escrowed.'', s5))"

text \<open>
  \<^verbatim>\<open>POST /:id/claim\<close>, statement by statement: the first read with its checks, the
  conditional UPDATE, and the read-back that decides between success and 409.
\<close>

definition claim_check :: "agent_id \<Rightarrow> task_id \<Rightarrow> pit \<Rightarrow> error option" where
  "claim_check a t s =
     (case tasks s t of
        None \<Rightarrow> Some TaskNotFound
      | Some r \<Rightarrow>
          if status r \<noteq> Open then Some TaskNotOpen
          else if requester_id r = a then Some OwnTask
          else None)"

definition claim_update :: "agent_id \<Rightarrow> task_id \<Rightarrow> nat \<Rightarrow> pit \<Rightarrow> pit" where
  "claim_update a t now s =
     update_task t
       (\<lambda>r. if status r = Open
             then r\<lparr>status := Claimed, worker_id := Some a, claimed_at := Some now\<rparr>
             else r) s"

definition claim_verify :: "agent_id \<Rightarrow> task_id \<Rightarrow> pit \<Rightarrow> bool" where
  "claim_verify a t s =
     (case tasks s t of
        None \<Rightarrow> False
      | Some r \<Rightarrow> status r = Claimed \<and> worker_id r = Some a)"

definition claim_finish :: "agent_id \<Rightarrow> task_id \<Rightarrow> agent_id \<Rightarrow> pit \<Rightarrow> outcome" where
  "claim_finish a t req s =
     (if \<not> claim_verify a t s then (Inl ClaimedByAnother, s)
      else
        let s1 = logTaskEvent t a ''claimed'' s;
            s2 = createNotification req ''task_claimed'' ''Task Claimed'' s1
        in (Inr ''Task claimed. Get to work.'', s2))"

definition post_claim :: "agent_id option \<Rightarrow> task_id \<Rightarrow> nat \<Rightarrow> pit \<Rightarrow> outcome" where
  "post_claim caller t now s =
     (case authenticate caller s of
        None \<Rightarrow> (Inl AuthenticationRequired, s)
      | Some (aid, agent) \<Rightarrow>
          (case claim_check aid t s of
             Some e \<Rightarrow> (Inl e, s)
           | None \<Rightarrow>
               claim_finish aid t (requester_id (the (tasks s t))) (claim_update aid t now s)))"

text \<open>\<^verbatim>\<open>POST /:id/submit\<close>.\<close>

definition post_submit :: "agent_id option \<Rightarrow> task_id \<Rightarrow> string option \<Rightarrow> nat \<Rightarrow> pit \<Rightarrow> outcome" where
  "post_submit caller t rawProof now s =
     (case authenticate caller s of
        None \<Rightarrow> (Inl AuthenticationRequired, s)
      | Some (aid, agent) \<Rightarrow>
          if or_null rawProof = None then (Inl ProofRequired, s)
          else
            (case tasks s t of
               None \<Rightarrow> (Inl TaskNotFound, s)
             | Some r \<Rightarrow>
                 if worker_id r \<noteq> Some aid then (Inl NotWorker, s)
                 else if status r \<noteq> Claimed then (Inl NotClaimed, s)
                 else
                   let s1 = update_task t
                              (\<lambda>r. r\<lparr>status := Submitted,
                                     proof_submitted := Some (sanitizeProof (the rawProof)),
                                     submitted_at := Some now\<rparr>) s;
                       s2 = logTaskEvent t aid ''submitted'' s1
                   in (Inr ''Work submitted. Awaiting validation.'', s2)))"

text \<open>
  The approve branch of \<^verbatim>\<open>POST /:id/validate\<close>. A task without a worker makes
  \<^verbatim>\<open>recordTransaction\<close> insert a NULL agent id, which throws.
\<close>

definition approve_work :: "agent_id \<Rightarrow> task_id \<Rightarrow> task \<Rightarrow> nat \<Rightarrow> pit \<Rightarrow> outcome" where
  "approve_work aid t r now s =
     (let s1 = (case worker_id r of
                  None \<Rightarrow> s
                | Some w \<Rightarrow>
                    update_agent w
                      (\<lambda>x. x\<lparr>credits := credits x + reward r,
                             tasks_completed := tasks_completed x + 1\<rparr>) s);
          s2 = update_task t (\<lambda>x. x\<lparr>status := Completed, completed_at := Some now\<rparr>) s1;
          s3 = logTaskEvent t aid ''approved'' s2
      in
        case worker_id r of
          None \<Rightarrow> (Inl ServerError, s3)
        | Some w \<Rightarrow>
            let s4 = recordTransaction w ''task_payment'' (reward r)
                       (''Payment for task: '' @ title r) (Some t) (Some (requester_id r)) s3;
                s5 = snd (recordReputationEvent w ''TASK_COMPLETED''
                       (no_options\<lparr>taskId := Some t, relatedAgentId := Some (requester_id r)\<rparr>) s4);
                s6 = (if reward r \<ge> 50
                      then snd (recordReputationEvent w ''HIGH_VALUE_TASK''
                             (no_options\<lparr>taskId := Some t,
                                opt_reason := Some (''Completed high-value task ('' @
                                  decimal_of_int (reward r) @ '' credits)'')\<rparr>) s5)
                      else s5);
                s7 = (case agents s6 w of
                        None \<Rightarrow> s6
                      | Some x \<Rightarrow>
                          if tasks_completed x = 1
                          then snd (recordReputationEvent w ''FIRST_TASK''
                                 (no_options\<lparr>taskId := Some t\<rparr>) s6)
                          else s6);
                s8 = checkAndAwardBadges w s7;
                s9 = createNotification w ''payment'' ''Payment Received'' s8
            in (Inr ''Task completed. Worker paid.'', s9))"

text \<open>
  The reject branch. Without a worker, \<^verbatim>\<open>recordReputationEvent\<close> inserts a NULL
  agent id and throws, after the refund and its transaction.
\<close>

definition reject_work :: "agent_id \<Rightarrow> task_id \<Rightarrow> task \<Rightarrow> string option \<Rightarrow> pit \<Rightarrow> outcome" where
  "reject_work aid t r rsn s =
     (let s1 = update_agent (requester_id r) (\<lambda>x. x\<lparr>credits := credits x + reward r\<rparr>) s;
          s2 = (case worker_id r of
                  None \<Rightarrow> s1
                | Some w \<Rightarrow> update_agent w (\<lambda>x. x\<lparr>tasks_failed := tasks_failed x + 1\<rparr>) s1);
          s3 = update_task t
                 (\<lambda>x. x\<lparr>status := Open, worker_id := None, claimed_at := None,
                        submitted_at := None, proof_submitted := None\<rparr>) s2;
          s4 = logTaskEvent t aid ''rejected'' s3;
          s5 = recordTransaction (requester_id r) ''escrow_release'' (reward r)
                 (''Task reopened, escrow maintained: '' @ title r) (Some t) None s4
      in
        case worker_id r of
          None \<Rightarrow> (Inl ServerError, s5)
        | Some w \<Rightarrow>
            let s6 = snd (recordReputationEvent w ''TASK_REJECTED''
                       (no_options\<lparr>taskId := Some t, relatedAgentId := Some (requester_id r),
                          opt_reason := Some (or_default rsn ''Work rejected'')\<rparr>) s5);
                s7 = createNotification w ''rejection'' ''Work Rejected'' s6
            in (Inr ''Work rejected. Task reopened.'', s7))"

text \<open>\<^verbatim>\<open>POST /:id/validate\<close>; \<open>approved = None\<close> is a body without the field.\<close>

definition post_validate ::
  "agent_id option \<Rightarrow> task_id \<Rightarrow> bool option \<Rightarrow> string option \<Rightarrow> nat \<Rightarrow> pit \<Rightarrow> outcome" where
  "post_validate caller t approved rsn now s =
     (case authenticate caller s of
        None \<Rightarrow> (Inl AuthenticationRequired, s)
      | Some (aid, agent) \<Rightarrow>
          (case approved of
             None \<Rightarrow> (Inl ApprovalRequired, s)
           | Some ok \<Rightarrow>
               (case tasks s t of
                  None \<Rightarrow> (Inl TaskNotFound, s)
                | Some r \<Rightarrow>
                    if requester_id r \<noteq> aid then (Inl NotRequester, s)
                    else if status r \<noteq> Submitted then (Inl NotSubmitted, s)
                    else if ok then approve_work aid t r now s
                    else reject_work aid t r rsn s)))"

text \<open>\<^verbatim>\<open>POST /:id/abandon\<close>.\<close>

definition post_abandon :: "agent_id option \<Rightarrow> task_id \<Rightarrow> pit \<Rightarrow> outcome" where
  "post_abandon caller t s =
     (case authenticate caller s of
        None \<Rightarrow> (Inl AuthenticationRequired, s)
      | Some (aid, agent) \<Rightarrow>
          (case tasks s t of
             None \<Rightarrow> (Inl TaskNotFound, s)
           | Some r \<Rightarrow>
               if worker_id r \<noteq> Some aid then (Inl NotWorker, s)
               else if status r \<noteq> Claimed then (Inl NotClaimed, s)
               else
                 let s1 = update_task t
                            (\<lambda>x. x\<lparr>status := Open, worker_id := None, claimed_at := None\<rparr>) s;
                     s2 = logTaskEvent t aid ''abandoned'' s1;
                     s3 = snd (recordReputationEvent aid ''TASK_ABANDONED''
                            (no_options\<lparr>taskId := Some t,
                               relatedAgentId := Some (requester_id r)\<rparr>) s2);
                     s4 = createNotification (requester_id r) ''task_abandoned''
                            ''Task Abandoned'' s3
                 in (Inr ''Task abandoned. Reputation penalty applied.'', s4)))"

text \<open>\<^verbatim>\<open>POST /:id/cancel\<close>.\<close>

definition post_cancel :: "agent_id option \<Rightarrow> task_id \<Rightarrow> pit \<Rightarrow> outcome" where
  "post_cancel caller t s =
     (case authenticate caller s of
        None \<Rightarrow> (Inl AuthenticationRequired, s)
      | Some (aid, agent) \<Rightarrow>
          (case tasks s t of
             None \<Rightarrow> (Inl TaskNotFound, s)
           | Some r \<Rightarrow>
               if requester_id r \<noteq> aid then (Inl NotRequester, s)
               else if status r \<noteq> Open then (Inl TaskNotOpen, s)
               else
                 let s1 = update_agent aid (\<lambda>x. x\<lparr>credits := credits x + reward r\<rparr>) s;
                     s2 = update_task t (\<lambda>x. x\<lparr>status := Cancelled\<rparr>) s1;
                     s3 = logTaskEvent t aid ''cancelled'' s2;
                     s4 = recordTransaction aid ''refund'' (reward r)
                            (''Task cancelled: '' @ title r) (Some t) None s3
                 in (Inr ''Task cancelled. Credits refunded.'', s4)))"

section \<open>Dispute resolution (the disputes routes)\<close>

text \<open>The source of the disputes routes is in \<^verbatim>\<open>src/unnamed/part_001\<close>, from line 143 on.\<close>

text \<open>\<^verbatim>\<open>POST /\<close> (raise a dispute); \<open>new_id\<close> is the id \<^verbatim>\<open>nanoid\<close> draws.\<close>

definition post_dispute ::
  "agent_id option \<Rightarrow> dispute_id \<Rightarrow> task_id option \<Rightarrow> string option \<Rightarrow> string option \<Rightarrow>
   pit \<Rightarrow> outcome" where
  "post_dispute caller new_id tId rawReason rawEvidence s =
     (case authenticate caller s of
        None \<Rightarrow> (Inl AuthenticationRequired, s)
      | Some (aid, agent) \<Rightarrow>
          if or_null tId = None \<or> or_null rawReason = None then (Inl DisputeFieldsRequired, s)
          else
            let t = the tId;
                rsn = sanitizeString (the rawReason) (Some 2000);
                ev = (case or_null rawEvidence of
                        None \<Rightarrow> None
                      | Some e \<Rightarrow> or_null (Some (sanitizeString e (Some 10000))))
            in
              (case tasks s t of
                 None \<Rightarrow> (Inl TaskNotFound, s)
               | Some r \<Rightarrow>
                   if requester_id r \<noteq> aid \<and> worker_id r \<noteq> Some aid then (Inl NotInvolved, s)
                   else if status r \<notin> {Submitted, Completed} then (Inl NotDisputable, s)
                   else if list_ex (\<lambda>(k, d). d_task_id d = t \<and> d_status d = DisputeOpen) (disputes s)
                   then (Inl DisputeExists, s)
                   else if map_of (disputes s) new_id \<noteq> None then (Inl ServerError, s)
                   else
                     let s1 = s\<lparr>disputes := disputes s @
                                  [(new_id, \<lparr>d_task_id = t, raised_by = aid, d_reason = rsn,
                                     evidence = ev, d_status = DisputeOpen, resolution = None,
                                     resolved_by = None, resolved_at = None\<rparr>)]\<rparr>;
                         s2 = update_task t (\<lambda>x. x\<lparr>status := Disputed\<rparr>) s1;
                         otherParty = (if requester_id r = aid then or_null (worker_id r)
                                       else or_null (Some (requester_id r)));
                         s3 = (case otherParty of
                                 None \<Rightarrow> s2
                               | Some p \<Rightarrow> createNotification p ''dispute'' ''Dispute Raised'' s2)
                     in (Inr ''Dispute raised. A moderator will review.'', s3)))"

text \<open>
  \<^verbatim>\<open>Math.min(10, Math.floor(reward * 0.05))\<close>, with the product taken exactly.
\<close>

definition arbitrationReward :: "int \<Rightarrow> int" where
  "arbitrationReward rew = min 10 \<lfloor>real_of_int rew * (5 / 100)\<rfloor>"

text \<open>
  The \<^verbatim>\<open>switch (decision)\<close> of \<^verbatim>\<open>POST /:id/resolve\<close>: the new task status and the
  store after the credit movements and reputation events of the chosen case.
\<close>

definition resolve_switch :: "string \<Rightarrow> task_id \<Rightarrow> task \<Rightarrow> pit \<Rightarrow> task_status \<times> pit" where
  "resolve_switch decision t r s =
     (if decision = ''favor_worker'' then
        (Completed,
         case or_null (worker_id r) of
           None \<Rightarrow> s
         | Some w \<Rightarrow>
             let s1 = update_agent w
                        (\<lambda>x. x\<lparr>credits := credits x + reward r,
                               tasks_completed := tasks_completed x + 1\<rparr>) s;
                 s2 = recordTransaction w ''task_payment'' (reward r)
                        (''Task completed (after dispute): '' @ title r) (Some t) None s1;
                 s3 = snd (recordReputationEvent w ''DISPUTE_WON''
                        (no_options\<lparr>taskId := Some t\<rparr>) s2)
             in snd (recordReputationEvent (requester_id r) ''DISPUTE_LOST''
                  (no_options\<lparr>taskId := Some t\<rparr>) s3))
      else if decision = ''favor_requester'' then
        (Cancelled,
         let s1 = update_agent (requester_id r) (\<lambda>x. x\<lparr>credits := credits x + reward r\<rparr>) s;
             s2 = recordTransaction (requester_id r) ''refund'' (reward r)
                    (''Refund (dispute won): '' @ title r) (Some t) None s1;
             s3 = snd (recordReputationEvent (requester_id r) ''DISPUTE_WON''
                    (no_options\<lparr>taskId := Some t\<rparr>) s2)
         in case or_null (worker_id r) of
              None \<Rightarrow> s3
            | Some w \<Rightarrow>
                update_agent w (\<lambda>x. x\<lparr>tasks_failed := tasks_failed x + 1\<rparr>)
                  (snd (recordReputationEvent w ''DISPUTE_LOST''
                     (no_options\<lparr>taskId := Some t\<rparr>) s3)))
      else if decision = ''split'' then
        (Completed,
         let halfReward = reward r div 2;
             s1 = update_agent (requester_id r) (\<lambda>x. x\<lparr>credits := credits x + halfReward\<rparr>) s;
             s2 = recordTransaction (requester_id r) ''refund_partial'' halfReward
                    (''Partial refund (dispute split): '' @ title r) (Some t) None s1
         in case or_null (worker_id r) of
              None \<Rightarrow> s2
            | Some w \<Rightarrow>
                recordTransaction w ''task_payment_partial'' (reward r - halfReward)
                  (''Partial payment (dispute split): '' @ title r) (Some t) None
                  (update_agent w (\<lambda>x. x\<lparr>credits := credits x + (reward r - halfReward)\<rparr>) s2))
      else if decision = ''cancel'' then
        (Cancelled,
         let s1 = update_agent (requester_id r) (\<lambda>x. x\<lparr>credits := credits x + reward r\<rparr>) s
         in recordTransaction (requester_id r) ''refund'' (reward r)
              (''Refund (dispute cancelled): '' @ title r) (Some t) None s1)
      else (Cancelled, s))"

text \<open>The arbitrator's reward, paid after the dispute and the task are updated.\<close>

definition reward_arbitrator :: "agent_id \<Rightarrow> task_id \<Rightarrow> task \<Rightarrow> pit \<Rightarrow> pit" where
  "reward_arbitrator aid t r s =
     (let ar = arbitrationReward (reward r)
      in if ar > 0
         then recordTransaction aid ''arbitration_reward'' ar
                (''Arbitration reward: '' @ title r) (Some t) None
                (update_agent aid (\<lambda>x. x\<lparr>credits := credits x + ar\<rparr>) s)
         else s)"

definition dispute_parties :: "task \<Rightarrow> agent_id list" where
  "dispute_parties r =
     (if requester_id r = [] then [] else [requester_id r]) @
     (case or_null (worker_id r) of None \<Rightarrow> [] | Some w \<Rightarrow> [w])"

definition isInvolved :: "agent_id \<Rightarrow> dispute \<Rightarrow> task \<Rightarrow> bool" where
  "isInvolved aid d r = (aid = raised_by d \<or> aid = requester_id r \<or> Some aid = worker_id r)"

definition isArbitrator :: "agent_id \<Rightarrow> agent \<Rightarrow> dispute \<Rightarrow> task \<Rightarrow> bool" where
  "isArbitrator aid agent d r = (reputation agent \<ge> 80 \<and> \<not> isInvolved aid d r)"

text \<open>
  \<^verbatim>\<open>POST /:id/resolve\<close>. The dispute row is read joined with its task, so a dispute
  whose task is missing is not found.
\<close>

definition post_resolve ::
  "agent_id option \<Rightarrow> dispute_id \<Rightarrow> string option \<Rightarrow> string option \<Rightarrow> nat \<Rightarrow> pit \<Rightarrow> outcome" where
  "post_resolve caller dId decision res now s =
     (case authenticate caller s of
        None \<Rightarrow> (Inl AuthenticationRequired, s)
      | Some (aid, agent) \<Rightarrow>
          if decision \<notin> {Some ''favor_requester'', Some ''favor_worker'', Some ''split'', Some ''cancel''}
          then (Inl InvalidDecision, s)
          else
            (case map_of (disputes s) dId of
               None \<Rightarrow> (Inl DisputeNotFound, s)
             | Some d \<Rightarrow>
                 (case tasks s (d_task_id d) of
                    None \<Rightarrow> (Inl DisputeNotFound, s)
                  | Some r \<Rightarrow>
                      if d_status d \<noteq> DisputeOpen then (Inl DisputeNotOpen, s)
                      else if \<not> isInvolved aid d r \<and> \<not> isArbitrator aid agent d r
                      then (Inl NotAuthorizedToResolve, s)
                      else
                        let (taskStatus, s1) = resolve_switch (the decision) (d_task_id d) r s;
                            s2 = update_dispute dId
                                   (\<lambda>x. x\<lparr>d_status := DisputeResolved,
                                          resolution := Some (or_default res (the decision)),
                                          resolved_by := Some aid, resolved_at := Some now\<rparr>) s1;
                            s3 = update_task (d_task_id d) (\<lambda>x. x\<lparr>status := taskStatus\<rparr>) s2;
                            s4 = (if isArbitrator aid agent d r
                                  then reward_arbitrator aid (d_task_id d) r s3 else s3);
                            s5 = fold (\<lambda>p. createNotification p ''dispute_resolved''
                                               ''Dispute Resolved'') (dispute_parties r) s4
                        in (Inr ''Dispute resolved'', s5))))"

section \<open>Runs and sample stores\<close>

text \<open>The spec's reputation invariant: every agent's score lies in [0, 100].\<close>

definition reputation_in_range :: "pit \<Rightarrow> bool" where
  "reputation_in_range s =
     (\<forall>a r. agents s a = Some r \<longrightarrow> 0 \<le> reputation r \<and> reputation r \<le> 100)"

text \<open>No agent's balance is lower in \<open>s'\<close> than in \<open>s\<close>.\<close>

definition no_debit :: "pit \<Rightarrow> pit \<Rightarrow> bool" where
  "no_debit s s' =
     (\<forall>p c. credits_of s p = Some c \<longrightarrow> (\<exists>c'. credits_of s' p = Some c' \<and> c \<le> c'))"

text \<open>A sequence of calls of \<^verbatim>\<open>recordReputationEvent\<close>, one after the other.\<close>

fun record_events :: "(agent_id \<times> string \<times> rep_options) list \<Rightarrow> pit \<Rightarrow> pit" where
  "record_events [] s = s"
| "record_events ((a, ty, opts) # es) s = record_events es (snd (recordReputationEvent a ty opts s))"

text \<open>An agent row with the given name, credits and reputation and fresh counters.\<close>

definition plain_agent :: "string \<Rightarrow> int \<Rightarrow> real \<Rightarrow> agent" where
  "plain_agent n c r =
     \<lparr>name = n, skills = [], credits = c, reputation = r,
      tasks_completed = 0, tasks_posted = 0, tasks_failed = 0\<rparr>"

definition empty_pit :: pit where
  "empty_pit =
     \<lparr>agents = Map.empty, tasks = Map.empty, disputes = [], transactions = [],
      reputation_events = [], badges = [], notifications = [], task_log = [],
      skill_endorsements = [], reviews = []\<rparr>"

definition rep_demo :: pit where
  "rep_demo = empty_pit\<lparr>agents := [''B'' \<mapsto> plain_agent ''Bob'' 100 98]\<rparr>"

text \<open>
  The spec's example: Alice (100 credits) posts task \<open>T\<close> with reward 30, Bob claims it
  and submits; Alice rejects, Bob claims and submits again, Alice approves.
\<close>

definition demo0 :: pit where
  "demo0 = empty_pit\<lparr>agents := [''A'' \<mapsto> plain_agent ''Alice'' 100 50,
                                   ''B'' \<mapsto> plain_agent ''Bob'' 100 50,
                                   ''C'' \<mapsto> plain_agent ''Carol'' 100 85]\<rparr>"

definition demo_task :: task where
  "demo_task = new_task ''t'' ''d'' ''A'' 30 [] ''text'' None"

definition demo1 :: pit where
  "demo1 = snd (post_task (Some ''A'') ''T'' (Some ''t'') (Some ''d'') (JNum (safe_integer_of 30)) [] None None demo0)"

definition demo2 :: pit where
  "demo2 = snd (post_claim (Some ''B'') ''T'' 1 demo1)"

definition demo3 :: pit where
  "demo3 = snd (post_submit (Some ''B'') ''T'' (Some ''done'') 2 demo2)"

definition demo4 :: pit where
  "demo4 = snd (post_validate (Some ''A'') ''T'' (Some False) None 3 demo3)"

definition demo5 :: pit where
  "demo5 = snd (post_claim (Some ''B'') ''T'' 4 demo4)"

definition demo6 :: pit where
  "demo6 = snd (post_submit (Some ''B'') ''T'' (Some ''done'') 5 demo5)"

definition demo7 :: pit where
  "demo7 = snd (post_validate (Some ''A'') ''T'' (Some True) None 6 demo6)"

text \<open>
  Two other ways on: Alice cancels the task that her rejection has reopened; and Bob,
  instead of submitting, abandons the task he has claimed.
\<close>

definition demo_cancelled :: pit where
  "demo_cancelled = snd (post_cancel (Some ''A'') ''T'' demo4)"

definition demo_abandoned :: pit where
  "demo_abandoned = snd (post_abandon (Some ''B'') ''T'' demo2)"

text \<open>The transaction table, row by row: agent, type, amount, balance_after, related task.\<close>

definition tx_rows :: "pit \<Rightarrow> (agent_id \<times> string \<times> int \<times> int \<times> task_id option) list" where
  "tx_rows s =
     map (\<lambda>x. (tx_agent_id x, tx_type x, amount x, balance_after x, tx_related_task_id x))
       (transactions s)"

text \<open>The reputation events table, row by row: agent, event type, points.\<close>

definition rep_rows :: "pit \<Rightarrow> (agent_id \<times> string \<times> real) list" where
  "rep_rows s = map (\<lambda>e. (re_agent_id e, event_type e, points e)) (reputation_events s)"

text \<open>Alice asks for a task with the reward \<open>- 5\<close>.\<close>

definition demo_neg :: outcome where
  "demo_neg = post_task (Some ''A'') ''T'' (Some ''t'') (Some ''d'') (JNum (safe_integer_of (- 5))) [] None None demo0"

text \<open>
  Further runs from the submitted task: a dispute raised by the requester and resolved
  \<open>split\<close> by Carol, who is no party and has reputation 85; and an approval followed
  by a dispute on the completed task that the worker resolves in his own favour.
\<close>

definition demo_dispute :: dispute where
  "demo_dispute = \<lparr>d_task_id = ''T'', raised_by = ''A'', d_reason = ''bad'', evidence = None,
     d_status = DisputeOpen, resolution = None, resolved_by = None, resolved_at = None\<rparr>"

definition demo_d :: pit where
  "demo_d = snd (post_dispute (Some ''A'') ''D'' (Some ''T'') (Some ''bad'') None demo3)"

definition demo_split :: pit where
  "demo_split = snd (post_resolve (Some ''C'') ''D'' (Some ''split'') None 4 demo_d)"

definition demo8 :: pit where
  "demo8 = snd (post_validate (Some ''A'') ''T'' (Some True) None 3 demo3)"

definition demo9 :: pit where
  "demo9 = snd (post_dispute (Some ''A'') ''D'' (Some ''T'') (Some ''bad'') None demo8)"

definition demo10 :: pit where
  "demo10 = snd (post_resolve (Some ''B'') ''D'' (Some ''favor_worker'') None 5 demo9)"

section \<open>Concurrent claims\<close>

text \<open>
  Several callers of \<^verbatim>\<open>POST /:id/claim\<close> at once. Each caller runs the handler's
  three database statements in order; between two statements of one caller, statements
  of other callers may run. A caller is at its first read (\<open>AtCheck\<close>), before its
  UPDATE (\<open>AtUpdate\<close>) or before its read-back (\<open>AtVerify\<close>), both with the
  requester id it has read, or it has sent its response (\<open>Finished\<close>). A schedule lists
  who moves next, with the clock that caller's UPDATE would store.
\<close>

datatype claim_pc = AtCheck | AtUpdate agent_id | AtVerify agent_id | Finished "error + string"

type_synonym claim_run = "pit \<times> (agent_id \<Rightarrow> claim_pc)"

definition claim_step :: "task_id \<Rightarrow> agent_id \<times> nat \<Rightarrow> claim_run \<Rightarrow> claim_run" where
  "claim_step t an run =
     (case an of (a, now) \<Rightarrow>
      case run of (s, pc) \<Rightarrow>
        (case pc a of
           AtCheck \<Rightarrow>
             (case authenticate (Some a) s of
                None \<Rightarrow> (s, pc(a := Finished (Inl AuthenticationRequired)))
              | Some _ \<Rightarrow>
                  (case claim_check a t s of
                     Some e \<Rightarrow> (s, pc(a := Finished (Inl e)))
                   | None \<Rightarrow> (s, pc(a := AtUpdate (requester_id (the (tasks s t)))))))
         | AtUpdate req \<Rightarrow> (claim_update a t now s, pc(a := AtVerify req))
         | AtVerify req \<Rightarrow>
             (case claim_finish a t req s of (res, s') \<Rightarrow> (s', pc(a := Finished res)))
         | Finished _ \<Rightarrow> (s, pc)))"

definition run_claims :: "task_id \<Rightarrow> (agent_id \<times> nat) list \<Rightarrow> claim_run \<Rightarrow> claim_run" where
  "run_claims t sched run = fold (claim_step t) sched run"

definition idle :: "agent_id \<Rightarrow> claim_pc" where
  "idle = (\<lambda>_. AtCheck)"

text \<open>
  What a caller that does not win may be doing or may have received, and the invariant
  of a run: either nobody has updated yet, or one caller \<open>w\<close> has, and the store is
  the one \<open>w\<close>'s claim produces.
\<close>

definition loser_pc :: "agent_id \<Rightarrow> claim_pc \<Rightarrow> bool" where
  "loser_pc q p =
     (p \<in> {AtCheck, AtUpdate q, AtVerify q,
            Finished (Inl ClaimedByAnother), Finished (Inl TaskNotOpen)})"

definition claim_inv ::
  "pit \<Rightarrow> task_id \<Rightarrow> agent_id \<Rightarrow> (agent_id \<times> nat) set \<Rightarrow> claim_run \<Rightarrow> bool" where
  "claim_inv s0 t q P run =
     (case run of (s, pc) \<Rightarrow>
        (s = s0 \<and> (\<forall>a. pc a = AtCheck \<or> pc a = AtUpdate q)) \<or>
        (\<exists>w n. (w, n) \<in> P \<and> agents s0 w \<noteq> None \<and> w \<noteq> q \<and>
           (\<forall>a. a \<noteq> w \<longrightarrow> loser_pc q (pc a)) \<and>
           ((s = claim_update w t n s0 \<and> pc w = AtVerify q) \<or>
            (s = snd (post_claim (Some w) t n s0) \<and>
             pc w = Finished (Inr ''Task claimed. Get to work.'')))))"

text \<open>
  The store a caller finds at its first read: the one the schedule has produced when
  that caller moves for the first time.
\<close>

definition first_read :: "task_id \<Rightarrow> (agent_id \<times> nat) list \<Rightarrow> agent_id \<Rightarrow> claim_run \<Rightarrow> pit" where
  "first_read t sched a run = fst (run_claims t (takeWhile (\<lambda>e. fst e \<noteq> a) sched) run)"

text \<open>
  A caller whose first read found nothing to refuse: it is before its UPDATE or its
  read-back, or it has been answered by the read-back (success or 409).
\<close>

fun passed_check :: "claim_pc \<Rightarrow> bool" where
  "passed_check AtCheck = False"
| "passed_check (AtUpdate req) = True"
| "passed_check (AtVerify req) = True"
| "passed_check (Finished (Inl e)) = (e = ClaimedByAnother)"
| "passed_check (Finished (Inr msg)) = True"

text \<open>Two schedules for Bob and Carol claiming \<open>T\<close>: statement by statement in turn, and one after the other.\<close>

definition demo_interleaved :: "(agent_id \<times> nat) list" where
  "demo_interleaved = [(''B'', 1), (''C'', 2), (''B'', 1), (''C'', 2), (''B'', 1), (''C'', 2)]"

definition demo_sequential :: "(agent_id \<times> nat) list" where
  "demo_sequential = [(''B'', 1), (''B'', 1), (''B'', 1), (''C'', 2), (''C'', 2), (''C'', 2)]"

section \<open>Properties\<close>

subsection \<open>Safe integers\<close>

lemma number_value_safe_integer_of [simp]:
  "- (2 ^ 53) < n \<Longrightarrow> n < 2 ^ 53 \<Longrightarrow> number_value (safe_integer_of n) = n"
  by (simp add: safe_integer_of_inverse)

subsection \<open>What each helper leaves alone\<close>

lemma createNotification_frame [simp]:
  "agents (createNotification a ty ttl s) = agents s"
  "tasks (createNotification a ty ttl s) = tasks s"
  "disputes (createNotification a ty ttl s) = disputes s"
  "transactions (createNotification a ty ttl s) = transactions s"
  "reputation_events (createNotification a ty ttl s) = reputation_events s"
  "badges (createNotification a ty ttl s) = badges s"
  "task_log (createNotification a ty ttl s) = task_log s"
  "skill_endorsements (createNotification a ty ttl s) = skill_endorsements s"
  "reviews (createNotification a ty ttl s) = reviews s"
  by (simp_all add: createNotification_def)

lemma logTaskEvent_frame [simp]:
  "agents (logTaskEvent t a act s) = agents s"
  "tasks (logTaskEvent t a act s) = tasks s"
  "disputes (logTaskEvent t a act s) = disputes s"
  "transactions (logTaskEvent t a act s) = transactions s"
  "reputation_events (logTaskEvent t a act s) = reputation_events s"
  "badges (logTaskEvent t a act s) = badges s"
  "notifications (logTaskEvent t a act s) = notifications s"
  by (simp_all add: logTaskEvent_def)

lemma recordTransaction_frame [simp]:
  "agents (recordTransaction a ty amt descr tId rId s) = agents s"
  "tasks (recordTransaction a ty amt descr tId rId s) = tasks s"
  "disputes (recordTransaction a ty amt descr tId rId s) = disputes s"
  "reputation_events (recordTransaction a ty amt descr tId rId s) = reputation_events s"
  "badges (recordTransaction a ty amt descr tId rId s) = badges s"
  "notifications (recordTransaction a ty amt descr tId rId s) = notifications s"
  "task_log (recordTransaction a ty amt descr tId rId s) = task_log s"
  by (simp_all add: recordTransaction_def Let_def)

lemma update_agent_frame [simp]:
  "tasks (update_agent a f s) = tasks s"
  "disputes (update_agent a f s) = disputes s"
  "transactions (update_agent a f s) = transactions s"
  "reputation_events (update_agent a f s) = reputation_events s"
  "badges (update_agent a f s) = badges s"
  "notifications (update_agent a f s) = notifications s"
  "task_log (update_agent a f s) = task_log s"
  by (simp_all add: update_agent_def split: option.split)

lemma agents_update_agent:
  "agents (update_agent a f s) b =
     (if b = a then map_option f (agents s a) else agents s b)"
  by (simp add: update_agent_def split: option.split)

lemma update_task_frame [simp]:
  "agents (update_task t f s) = agents s"
  "disputes (update_task t f s) = disputes s"
  "transactions (update_task t f s) = transactions s"
  "reputation_events (update_task t f s) = reputation_events s"
  "badges (update_task t f s) = badges s"
  "notifications (update_task t f s) = notifications s"
  "task_log (update_task t f s) = task_log s"
  by (simp_all add: update_task_def split: option.split)

lemma tasks_update_task:
  "tasks (update_task t f s) u =
     (if u = t then map_option f (tasks s t) else tasks s u)"
  by (simp add: update_task_def split: option.split)

lemma update_dispute_frame [simp]:
  "agents (update_dispute d f s) = agents s"
  "tasks (update_dispute d f s) = tasks s"
  "transactions (update_dispute d f s) = transactions s"
  "reputation_events (update_dispute d f s) = reputation_events s"
  "badges (update_dispute d f s) = badges s"
  "notifications (update_dispute d f s) = notifications s"
  "task_log (update_dispute d f s) = task_log s"
  by (simp_all add: update_dispute_def)

lemma award_badges_frame [simp]:
  "agents (award_badges a st ex bs s) = agents s"
  "tasks (award_badges a st ex bs s) = tasks s"
  "disputes (award_badges a st ex bs s) = disputes s"
  "transactions (award_badges a st ex bs s) = transactions s"
  "reputation_events (award_badges a st ex bs s) = reputation_events s"
  "task_log (award_badges a st ex bs s) = task_log s"
  by (induction bs arbitrary: s; simp)+

lemma checkAndAwardBadges_frame [simp]:
  "agents (checkAndAwardBadges a s) = agents s"
  "tasks (checkAndAwardBadges a s) = tasks s"
  "disputes (checkAndAwardBadges a s) = disputes s"
  "transactions (checkAndAwardBadges a s) = transactions s"
  "reputation_events (checkAndAwardBadges a s) = reputation_events s"
  "task_log (checkAndAwardBadges a s) = task_log s"
  by (simp_all add: checkAndAwardBadges_def split: option.split)

lemma recordReputationEvent_frame [simp]:
  "tasks (snd (recordReputationEvent a ty opts s)) = tasks s"
  "disputes (snd (recordReputationEvent a ty opts s)) = disputes s"
  "transactions (snd (recordReputationEvent a ty opts s)) = transactions s"
  "task_log (snd (recordReputationEvent a ty opts s)) = task_log s"
  by (simp_all add: recordReputationEvent_def Let_def split: option.split)

lemma agents_recordReputationEvent:
  "agents (snd (recordReputationEvent a ty opts s)) b =
     (case map_of REPUTATION_EVENTS ty of
        None \<Rightarrow> agents s b
      | Some ev \<Rightarrow>
          if b = a
          then map_option (\<lambda>r. r\<lparr>reputation := clamp_reputation (reputation r + event_points ev opts)\<rparr>)
                 (agents s a)
          else agents s b)"
  by (simp add: recordReputationEvent_def Let_def agents_update_agent split: option.split)

lemma reputation_events_recordReputationEvent:
  "reputation_events (snd (recordReputationEvent a ty opts s)) =
     (case map_of REPUTATION_EVENTS ty of
        None \<Rightarrow> reputation_events s
      | Some ev \<Rightarrow>
          reputation_events s @
            [\<lparr>re_agent_id = a, event_type = ty, points = event_points ev opts,
              re_reason = or_default (opt_reason opts) (ev_description ev),
              re_related_task_id = or_null (taskId opts),
              re_related_agent_id = or_null (relatedAgentId opts)\<rparr>])"
  by (simp add: recordReputationEvent_def Let_def split: option.split)

lemma credits_recordReputationEvent [simp]:
  "credits_of (snd (recordReputationEvent a ty opts s)) b = credits_of s b"
  by (cases "agents s a")
     (simp_all add: credits_of_def agents_recordReputationEvent split: option.split)

lemma lookup_events [simp]:
  "map_of REPUTATION_EVENTS ''TASK_COMPLETED'' = Some \<lparr>ev_points = 3, ev_description = ''Completed a task''\<rparr>"
  "map_of REPUTATION_EVENTS ''HIGH_VALUE_TASK'' =
     Some \<lparr>ev_points = 2, ev_description = ''Completed high-value task (50+ credits)''\<rparr>"
  "map_of REPUTATION_EVENTS ''FIRST_TASK'' = Some \<lparr>ev_points = 5, ev_description = ''Completed first task''\<rparr>"
  "map_of REPUTATION_EVENTS ''TASK_REJECTED'' = Some \<lparr>ev_points = - 5, ev_description = ''Work was rejected''\<rparr>"
  "map_of REPUTATION_EVENTS ''TASK_ABANDONED'' =
     Some \<lparr>ev_points = - 2, ev_description = ''Abandoned a claimed task''\<rparr>"
  "map_of REPUTATION_EVENTS ''DISPUTE_WON'' = Some \<lparr>ev_points = 2, ev_description = ''Won a dispute''\<rparr>"
  "map_of REPUTATION_EVENTS ''DISPUTE_LOST'' = Some \<lparr>ev_points = - 3, ev_description = ''Lost a dispute''\<rparr>"
  by (simp_all add: REPUTATION_EVENTS_def)

lemma clamp_reputation_range: "0 \<le> clamp_reputation x \<and> clamp_reputation x \<le> 100"
  by (simp add: clamp_reputation_def)

lemma recordReputationEvent_in_range:
  assumes "reputation_in_range s"
  shows "reputation_in_range (snd (recordReputationEvent a ty opts s))"
  unfolding reputation_in_range_def
proof (intro allI impI)
  fix b r
  assume h: "agents (snd (recordReputationEvent a ty opts s)) b = Some r"
  show "0 \<le> reputation r \<and> reputation r \<le> 100"
  proof (cases "map_of REPUTATION_EVENTS ty")
    case None
    with h have "agents s b = Some r" by (simp add: agents_recordReputationEvent)
    with assms show ?thesis by (simp add: reputation_in_range_def)
  next
    case (Some ev)
    show ?thesis
    proof (cases "b = a")
      case True
      with h Some obtain r0 where
        "r = r0\<lparr>reputation := clamp_reputation (reputation r0 + event_points ev opts)\<rparr>"
        by (auto simp: agents_recordReputationEvent)
      then show ?thesis by (simp add: clamp_reputation_range)
    next
      case False
      with h Some have "agents s b = Some r" by (simp add: agents_recordReputationEvent)
      with assms show ?thesis by (simp add: reputation_in_range_def)
    qed
  qed
qed

lemma record_events_in_range:
  "reputation_in_range s \<Longrightarrow> reputation_in_range (record_events es s)"
  by (induction es s rule: record_events.induct) (simp_all add: recordReputationEvent_in_range)

subsection \<open>Reputation ledger\<close>

text \<open>
  Claim C6. Starting from a store in which every agent's reputation lies in [0, 100],
  any sequence of recorded reputation events, of any types and with any multipliers,
  leaves every agent's reputation in [0, 100]; and a single event of a known type sets
  the score of its agent to the old score plus the event's delta, clamped to [0, 100].
\<close>

theorem reputation_always_clamped:
  "(reputation_in_range s \<longrightarrow> reputation_in_range (record_events es s)) \<and>
   (\<forall>r ev. agents s a = Some r \<and> map_of REPUTATION_EVENTS ty = Some ev \<longrightarrow>
      map_option reputation (agents (snd (recordReputationEvent a ty opts s)) a) =
        Some (max 0 (min 100 (reputation r + event_points ev opts))) \<and>
      0 \<le> max 0 (min 100 (reputation r + event_points ev opts)) \<and>
      max 0 (min 100 (reputation r + event_points ev opts)) \<le> (100::real))"
  by (auto simp: record_events_in_range agents_recordReputationEvent clamp_reputation_def)

lemma rep_demo_range: "reputation_in_range rep_demo"
  by (simp add: reputation_in_range_def rep_demo_def empty_pit_def plain_agent_def)

theorem reputation_always_clamped_witness:
  "reputation_in_range rep_demo \<and>
   reputation_in_range
     (record_events [(''B'', ''FIRST_TASK'', no_options),
                     (''B'', ''TASK_REJECTED'', no_options\<lparr>multiplier := Some 30\<rparr>)] rep_demo) \<and>
   agents rep_demo ''B'' = Some (plain_agent ''Bob'' 100 98) \<and>
   map_of REPUTATION_EVENTS ''FIRST_TASK'' = Some \<lparr>ev_points = 5, ev_description = ''Completed first task''\<rparr> \<and>
   map_option reputation
     (agents (snd (recordReputationEvent ''B'' ''FIRST_TASK'' no_options rep_demo)) ''B'') = Some 100"
  using reputation_always_clamped
    [of rep_demo "[(''B'', ''FIRST_TASK'', no_options),
                     (''B'', ''TASK_REJECTED'', no_options\<lparr>multiplier := Some 30\<rparr>)]"
        "''B''" "''FIRST_TASK''" no_options]
    rep_demo_range
  by (simp add: rep_demo_def empty_pit_def plain_agent_def event_points_def no_options_def)

lemma unknown_event_returns_null:
  assumes "map_of REPUTATION_EVENTS ty = None" "ty \<notin> set Object_prototype_names"
  shows "recordReputationEvent a ty opts s = (ReturnsNull, s)"
  using assms by (simp add: recordReputationEvent_def)

lemma unknown_event_keeps_store:
  "map_of REPUTATION_EVENTS ty = None \<Longrightarrow> snd (recordReputationEvent a ty opts s) = s"
  by (simp add: recordReputationEvent_def)

text \<open>
  Claim C10 at the event type \<open>constructor\<close>. It is not a key of the table, yet the
  lookup finds the inherited \<^verbatim>\<open>Object.prototype.constructor\<close>, the guard for unknown
  types does not fire, and the call throws instead of returning \<^verbatim>\<open>null\<close>; the store
  is left as it was. An event type that is neither a key nor an inherited name, such
  as \<open>TASK_EXPLODED\<close>, returns \<^verbatim>\<open>null\<close>.
\<close>

theorem inherited_name_is_not_unknown:
  "''constructor'' \<notin> set (map fst REPUTATION_EVENTS) \<and>
   recordReputationEvent ''B'' ''constructor'' no_options rep_demo = (Throws, rep_demo) \<and>
   fst (recordReputationEvent ''B'' ''constructor'' no_options rep_demo) \<noteq> ReturnsNull \<and>
   recordReputationEvent ''B'' ''TASK_EXPLODED'' no_options rep_demo = (ReturnsNull, rep_demo)"
  by (simp add: recordReputationEvent_def REPUTATION_EVENTS_def Object_prototype_names_def)

subsection \<open>The example run, step by step\<close>

lemma sanitize_plain [simp]:
  "sanitizeTitle ''t'' = ''t''" "sanitizeDescription ''d'' = ''d''" "sanitizeProof ''done'' = ''done''"
  by (simp_all add: sanitizeTitle_def sanitizeDescription_def sanitizeProof_def sanitizeString_def
       trim_def is_space_def escapeHtml_def htmlEntities_def)

lemma demo0_fields:
  "agents demo0 ''A'' = Some (plain_agent ''Alice'' 100 50)"
  "agents demo0 ''B'' = Some (plain_agent ''Bob'' 100 50)"
  "tasks demo0 ''T'' = None"
  "transactions demo0 = []"
  by (simp_all add: demo0_def empty_pit_def)

lemma demo1_fields:
  "agents demo1 ''A'' = Some ((plain_agent ''Alice'' 70 50)\<lparr>tasks_posted := 1\<rparr>)"
  "agents demo1 ''B'' = Some (plain_agent ''Bob'' 100 50)"
  "tasks demo1 ''T'' = Some (new_task ''t'' ''d'' ''A'' 30 [] ''text'' None)"
  "tx_rows demo1 = [(''A'', ''task_escrow'', - 30, 40, Some ''T'')]"
  by (simp_all add: demo1_def post_task_def authenticate_def demo0_fields or_null_def sanitizeInt_def
        sanitizeSkills_def Let_def agents_update_agent plain_agent_def tx_rows_def recordTransaction_def)


lemma demo2_fields:
  "fst (post_claim (Some ''B'') ''T'' 1 demo1) = Inr ''Task claimed. Get to work.''"
  "agents demo2 ''A'' = Some ((plain_agent ''Alice'' 70 50)\<lparr>tasks_posted := 1\<rparr>)"
  "agents demo2 ''B'' = Some (plain_agent ''Bob'' 100 50)"
  "tasks demo2 ''T'' = Some (demo_task\<lparr>status := Claimed, worker_id := Some ''B'', claimed_at := Some 1\<rparr>)"
  "tx_rows demo2 = [(''A'', ''task_escrow'', - 30, 40, Some ''T'')]"
  using demo1_fields
  by (simp_all add: demo2_def post_claim_def authenticate_def claim_check_def claim_update_def
        claim_finish_def claim_verify_def new_task_def demo_task_def Let_def tasks_update_task tx_rows_def)

lemma demo3_fields:
  "fst (post_submit (Some ''B'') ''T'' (Some ''done'') 2 demo2) = Inr ''Work submitted. Awaiting validation.''"
  "agents demo3 ''A'' = Some ((plain_agent ''Alice'' 70 50)\<lparr>tasks_posted := 1\<rparr>)"
  "agents demo3 ''B'' = Some (plain_agent ''Bob'' 100 50)"
  "tasks demo3 ''T'' = Some (demo_task\<lparr>status := Submitted, worker_id := Some ''B'', claimed_at := Some 1,
       proof_submitted := Some ''done'', submitted_at := Some 2\<rparr>)"
  "tx_rows demo3 = [(''A'', ''task_escrow'', - 30, 40, Some ''T'')]"
  using demo2_fields
  by (simp_all add: demo3_def post_submit_def authenticate_def or_null_def
        new_task_def demo_task_def Let_def tasks_update_task tx_rows_def)

lemma demo4_fields:
  "fst (post_validate (Some ''A'') ''T'' (Some False) None 3 demo3) = Inr ''Work rejected. Task reopened.''"
  "agents demo4 ''A'' = Some ((plain_agent ''Alice'' 100 50)\<lparr>tasks_posted := 1\<rparr>)"
  "agents demo4 ''B'' = Some ((plain_agent ''Bob'' 100 45)\<lparr>tasks_failed := 1\<rparr>)"
  "tasks demo4 ''T'' = Some demo_task"
  "tx_rows demo4 = [(''A'', ''task_escrow'', - 30, 40, Some ''T''),
                    (''A'', ''escrow_release'', 30, 130, Some ''T'')]"
  using demo3_fields
  by (simp_all add: demo4_def post_validate_def reject_work_def authenticate_def or_null_def
        new_task_def demo_task_def Let_def tasks_update_task agents_update_agent
        agents_recordReputationEvent clamp_reputation_def plain_agent_def
        event_points_def no_options_def tx_rows_def recordTransaction_def)


lemma demo5_fields:
  "fst (post_claim (Some ''B'') ''T'' 4 demo4) = Inr ''Task claimed. Get to work.''"
  "agents demo5 ''A'' = Some ((plain_agent ''Alice'' 100 50)\<lparr>tasks_posted := 1\<rparr>)"
  "agents demo5 ''B'' = Some ((plain_agent ''Bob'' 100 45)\<lparr>tasks_failed := 1\<rparr>)"
  "tasks demo5 ''T'' = Some (demo_task\<lparr>status := Claimed, worker_id := Some ''B'', claimed_at := Some 4\<rparr>)"
  "tx_rows demo5 = tx_rows demo4"
  using demo4_fields
  by (simp_all add: demo5_def post_claim_def authenticate_def claim_check_def claim_update_def
        claim_finish_def claim_verify_def new_task_def demo_task_def Let_def tasks_update_task tx_rows_def)

lemma demo6_fields:
  "fst (post_submit (Some ''B'') ''T'' (Some ''done'') 5 demo5) = Inr ''Work submitted. Awaiting validation.''"
  "agents demo6 ''A'' = Some ((plain_agent ''Alice'' 100 50)\<lparr>tasks_posted := 1\<rparr>)"
  "agents demo6 ''B'' = Some ((plain_agent ''Bob'' 100 45)\<lparr>tasks_failed := 1\<rparr>)"
  "tasks demo6 ''T'' = Some (demo_task\<lparr>status := Submitted, worker_id := Some ''B'', claimed_at := Some 4,
       proof_submitted := Some ''done'', submitted_at := Some 5\<rparr>)"
  "tx_rows demo6 = tx_rows demo4"
  using demo5_fields
  by (simp_all add: demo6_def post_submit_def authenticate_def or_null_def
        new_task_def demo_task_def Let_def tasks_update_task tx_rows_def)

lemma demo7_fields:
  "fst (post_validate (Some ''A'') ''T'' (Some True) None 6 demo6) = Inr ''Task completed. Worker paid.''"
  "agents demo7 ''A'' = Some ((plain_agent ''Alice'' 100 50)\<lparr>tasks_posted := 1\<rparr>)"
  "agents demo7 ''B'' = Some ((plain_agent ''Bob'' 130 53)\<lparr>tasks_failed := 1, tasks_completed := 1\<rparr>)"
  "map_option status (tasks demo7 ''T'') = Some Completed"
  "tx_rows demo7 = [(''A'', ''task_escrow'', - 30, 40, Some ''T''),
                    (''A'', ''escrow_release'', 30, 130, Some ''T''),
                    (''B'', ''task_payment'', 30, 160, Some ''T'')]"
  using demo6_fields demo4_fields(5)
  by (simp_all add: demo7_def post_validate_def approve_work_def authenticate_def or_null_def
        new_task_def demo_task_def Let_def tasks_update_task agents_update_agent
        agents_recordReputationEvent clamp_reputation_def plain_agent_def
        event_points_def no_options_def tx_rows_def recordTransaction_def)

lemma task_tx_sum_rows:
  "task_tx_sum s t = sum_list (map (\<lambda>(a, ty, amt, bal, rel). amt) (filter (\<lambda>(a, ty, amt, bal, rel). rel = Some t) (tx_rows s)))"
  by (simp add: task_tx_sum_def tx_rows_def filter_map comp_def)

lemma multiplier_no_options [simp]:
  "multiplier (no_options\<lparr>taskId := x\<rparr>) = None"
  "multiplier (no_options\<lparr>taskId := x, relatedAgentId := y\<rparr>) = None"
  "multiplier (no_options\<lparr>taskId := x, opt_reason := z\<rparr>) = None"
  "multiplier (no_options\<lparr>taskId := x, relatedAgentId := y, opt_reason := z\<rparr>) = None"
  by (simp_all add: no_options_def)

lemma event_points_plain [simp]: "multiplier opts = None \<Longrightarrow> event_points ev opts = ev_points ev"
  by (simp add: event_points_def)

lemma authenticate_Some:
  "authenticate caller s = Some (aid, agent) \<Longrightarrow> caller = Some aid \<and> agents s aid = Some agent"
  by (auto simp: authenticate_def split: option.splits)

subsection \<open>Validation\<close>

lemma approve_work_events:
  assumes "worker_id r = Some w" "agents s w = Some wr"
  shows "rep_rows (snd (approve_work aid t r now s)) =
         rep_rows s @ [(w, ''TASK_COMPLETED'', 3)] @
           (if reward r \<ge> 50 then [(w, ''HIGH_VALUE_TASK'', 2)] else []) @
           (if tasks_completed wr = 0 then [(w, ''FIRST_TASK'', 5)] else [])"
  using assms
  by (simp add: approve_work_def Let_def reputation_events_recordReputationEvent
        agents_recordReputationEvent agents_update_agent rep_rows_def)

lemma approve_work_worker:
  assumes "worker_id r = Some w" "agents s w = Some wr"
  shows "credits_of (snd (approve_work aid t r now s)) w = Some (credits wr + reward r)"
    and "map_option tasks_completed (agents (snd (approve_work aid t r now s)) w) =
           Some (tasks_completed wr + 1)"
  using assms
  by (simp_all add: approve_work_def Let_def credits_of_def
        agents_recordReputationEvent agents_update_agent)

lemma approve_work_task:
  assumes "worker_id r = Some w" "tasks s t = Some r"
  shows "fst (approve_work aid t r now s) = Inr ''Task completed. Worker paid.''"
    and "map_option status (tasks (snd (approve_work aid t r now s)) t) = Some Completed"
  using assms
  by (simp_all add: approve_work_def Let_def tasks_update_task split: option.split)

lemma approve_work_tx:
  assumes "worker_id r = Some w" "agents s w = Some wr"
  shows "tx_rows (snd (approve_work aid t r now s)) =
           tx_rows s @ [(w, ''task_payment'', reward r, credits wr + reward r + reward r, or_null (Some t))]"
  using assms
  by (simp add: approve_work_def Let_def tx_rows_def recordTransaction_def agents_update_agent
        agents_recordReputationEvent)

text \<open>
  Claim C8. When the requester approves a submitted task, the worker's
  balance grows by the full reward (booked as \<open>task_payment\<close>), the worker's completed
  counter grows by one, the task becomes \<open>completed\<close>, and the reputation events added
  are TASK_COMPLETED (+3) for the worker, then HIGH_VALUE_TASK (+2) exactly when the
  reward is at least 50, then FIRST_TASK (+5) exactly when the worker had no completed
  task before.
\<close>

theorem approve_pays_worker:
  assumes "authenticate caller s = Some (aid, agent)"
    and "tasks s t = Some r" and "requester_id r = aid" and "status r = Submitted"
    and "worker_id r = Some w" and "agents s w = Some wr"
  shows "fst (post_validate caller t (Some True) rsn now s) = Inr ''Task completed. Worker paid.'' \<and>
         credits_of (snd (post_validate caller t (Some True) rsn now s)) w =
           Some (credits wr + reward r) \<and>
         map (\<lambda>(a, ty, amt, bal, rel). (a, ty, amt))
             (drop (length (tx_rows s)) (tx_rows (snd (post_validate caller t (Some True) rsn now s)))) =
           [(w, ''task_payment'', reward r)] \<and>
         map_option tasks_completed (agents (snd (post_validate caller t (Some True) rsn now s)) w) =
           Some (tasks_completed wr + 1) \<and>
         map_option status (tasks (snd (post_validate caller t (Some True) rsn now s)) t) =
           Some Completed \<and>
         rep_rows (snd (post_validate caller t (Some True) rsn now s)) =
           rep_rows s @ [(w, ''TASK_COMPLETED'', 3)] @
             (if reward r \<ge> 50 then [(w, ''HIGH_VALUE_TASK'', 2)] else []) @
             (if tasks_completed wr = 0 then [(w, ''FIRST_TASK'', 5)] else [])"
proof -
  have pv: "post_validate caller t (Some True) rsn now s = approve_work aid t r now s"
    using assms by (simp add: post_validate_def)
  show ?thesis
    unfolding pv
    using approve_work_events [OF assms(5,6)] approve_work_worker [OF assms(5,6)]
      approve_work_task [OF assms(5,2)] approve_work_tx [OF assms(5,6)]
    by simp
qed

theorem approve_pays_worker_witness:
  "authenticate (Some ''A'') demo6 = Some (''A'', (plain_agent ''Alice'' 100 50)\<lparr>tasks_posted := 1\<rparr>) \<and>
   map_option requester_id (tasks demo6 ''T'') = Some ''A'' \<and>
   map_option status (tasks demo6 ''T'') = Some Submitted \<and>
   map_option worker_id (tasks demo6 ''T'') = Some (Some ''B'') \<and>
   agents demo6 ''B'' = Some ((plain_agent ''Bob'' 100 45)\<lparr>tasks_failed := 1\<rparr>) \<and>
   credits_of demo7 ''B'' = Some 130 \<and>
   map_option tasks_completed (agents demo7 ''B'') = Some 1 \<and>
   map_option status (tasks demo7 ''T'') = Some Completed \<and>
   rep_rows demo7 = rep_rows demo6 @ [(''B'', ''TASK_COMPLETED'', 3), (''B'', ''FIRST_TASK'', 5)]"
  using approve_pays_worker [of "Some ''A''" demo6 "''A''"
      "(plain_agent ''Alice'' 100 50)\<lparr>tasks_posted := 1\<rparr>" "''T''"
      "demo_task\<lparr>status := Submitted, worker_id := Some ''B'', claimed_at := Some 4,
          proof_submitted := Some ''done'', submitted_at := Some 5\<rparr>"
      "''B''" "(plain_agent ''Bob'' 100 45)\<lparr>tasks_failed := 1\<rparr>" None 6]
    demo6_fields
  by (simp add: authenticate_def demo7_def demo_task_def new_task_def plain_agent_def)

lemma reject_work_effect:
  assumes "worker_id r = Some w" "agents s w = Some wr" "agents s (requester_id r) = Some agent"
    "tasks s t = Some r"
  shows "fst (reject_work aid t r rsn s) = Inr ''Work rejected. Task reopened.''"
    and "map_option status (tasks (snd (reject_work aid t r rsn s)) t) = Some Open"
    and "map_option worker_id (tasks (snd (reject_work aid t r rsn s)) t) = Some None"
    and "map_option tasks_failed (agents (snd (reject_work aid t r rsn s)) w) =
           Some (tasks_failed wr + 1)"
    and "map_option reputation (agents (snd (reject_work aid t r rsn s)) w) =
           Some (max 0 (min 100 (reputation wr - 5)))"
    and "rep_rows (snd (reject_work aid t r rsn s)) = rep_rows s @ [(w, ''TASK_REJECTED'', - 5)]"
    and "credits_of (snd (reject_work aid t r rsn s)) (requester_id r) =
           Some (credits agent + reward r)"
    and "map (\<lambda>(a, ty, amt, bal, rel). (a, ty, amt))
           (drop (length (tx_rows s)) (tx_rows (snd (reject_work aid t r rsn s)))) =
           [(requester_id r, ''escrow_release'', reward r)]"
  using assms
  by (auto simp add: reject_work_def Let_def tasks_update_task agents_update_agent
        agents_recordReputationEvent reputation_events_recordReputationEvent rep_rows_def
        clamp_reputation_def credits_of_def tx_rows_def recordTransaction_def)

lemma demo_descriptions:
  "map tx_description (transactions demo1) = [''Escrowed for task: t'']"
  "map tx_description (transactions demo2) = [''Escrowed for task: t'']"
  "map tx_description (transactions demo3) = [''Escrowed for task: t'']"
  "map tx_description (transactions demo4) =
     [''Escrowed for task: t'', ''Task reopened, escrow maintained: t'']"
proof -
  show d1: "map tx_description (transactions demo1) = [''Escrowed for task: t'']"
    by (simp add: demo1_def post_task_def authenticate_def demo0_fields or_null_def sanitizeInt_def
          sanitizeSkills_def Let_def recordTransaction_def plain_agent_def)
  show d2: "map tx_description (transactions demo2) = [''Escrowed for task: t'']"
    using demo1_fields d1
    by (simp add: demo2_def post_claim_def authenticate_def claim_check_def claim_update_def
          claim_finish_def claim_verify_def new_task_def Let_def tasks_update_task)
  show d3: "map tx_description (transactions demo3) = [''Escrowed for task: t'']"
    using demo2_fields d2
    by (simp add: demo3_def post_submit_def authenticate_def or_null_def
          new_task_def demo_task_def Let_def)
  show "map tx_description (transactions demo4) =
          [''Escrowed for task: t'', ''Task reopened, escrow maintained: t'']"
    using demo3_fields d3
    by (simp add: demo4_def post_validate_def reject_work_def authenticate_def
          new_task_def demo_task_def Let_def recordTransaction_def)
qed

lemma demo_cancelled_fields:
  "fst (post_cancel (Some ''A'') ''T'' demo4) = Inr ''Task cancelled. Credits refunded.''"
  "agents demo_cancelled ''A'' = Some ((plain_agent ''Alice'' 130 50)\<lparr>tasks_posted := 1\<rparr>)"
  "map_option status (tasks demo_cancelled ''T'') = Some Cancelled"
  using demo4_fields
  by (simp_all add: demo_cancelled_def post_cancel_def authenticate_def demo_task_def new_task_def
        Let_def tasks_update_task agents_update_agent plain_agent_def)

lemma demo_abandoned_fields:
  "fst (post_abandon (Some ''B'') ''T'' demo2) = Inr ''Task abandoned. Reputation penalty applied.''"
  "agents demo_abandoned ''A'' = Some ((plain_agent ''Alice'' 70 50)\<lparr>tasks_posted := 1\<rparr>)"
  "tasks demo_abandoned ''T'' = Some demo_task"
  using demo2_fields
  by (simp_all add: demo_abandoned_def post_abandon_def authenticate_def demo_task_def new_task_def
        Let_def tasks_update_task agents_recordReputationEvent plain_agent_def)

text \<open>
  Claim C3 on the spec's example. Alice starts with 100 credits and escrows 30, so she
  holds 70 while Bob has the task. Her rejection reopens the task with no worker,
  counts one failure for Bob and takes 5 points of his reputation, as the claim says.
  But it also pays the 30 back to her: she holds 100 and not 70, under a row that
  reads \<open>Task reopened, escrow maintained\<close>. The reopened task still carries its reward
  of 30 with no credits behind it: when Alice cancels it she is refunded 30 once more
  and holds 130. When Bob abandons the claimed task instead, the task is reopened in
  the same way and Alice keeps 70.
\<close>

theorem reject_pays_escrow_back:
  "credits_of demo0 ''A'' = Some 100 \<and> credits_of demo1 ''A'' = Some 70 \<and>
   credits_of demo3 ''A'' = Some 70 \<and>
   fst (post_validate (Some ''A'') ''T'' (Some False) None 3 demo3) = Inr ''Work rejected. Task reopened.'' \<and>
   map_option status (tasks demo4 ''T'') = Some Open \<and>
   map_option worker_id (tasks demo4 ''T'') = Some None \<and>
   map_option reward (tasks demo4 ''T'') = Some 30 \<and>
   map_option tasks_failed (agents demo4 ''B'') = Some 1 \<and>
   map_option reputation (agents demo3 ''B'') = Some 50 \<and>
   map_option reputation (agents demo4 ''B'') = Some 45 \<and>
   credits_of demo4 ''A'' \<noteq> Some 70 \<and> credits_of demo4 ''A'' = Some 100 \<and>
   tx_rows demo4 = [(''A'', ''task_escrow'', - 30, 40, Some ''T''),
                    (''A'', ''escrow_release'', 30, 130, Some ''T'')] \<and>
   map tx_description (transactions demo4) =
     [''Escrowed for task: t'', ''Task reopened, escrow maintained: t''] \<and>
   fst (post_cancel (Some ''A'') ''T'' demo4) = Inr ''Task cancelled. Credits refunded.'' \<and>
   map_option status (tasks demo_cancelled ''T'') = Some Cancelled \<and>
   credits_of demo_cancelled ''A'' = Some 130 \<and>
   fst (post_abandon (Some ''B'') ''T'' demo2) = Inr ''Task abandoned. Reputation penalty applied.'' \<and>
   map_option status (tasks demo_abandoned ''T'') = Some Open \<and>
   map_option worker_id (tasks demo_abandoned ''T'') = Some None \<and>
   credits_of demo_abandoned ''A'' = Some 70"
  by (simp add: credits_of_def demo0_fields demo1_fields demo3_fields demo4_fields
        demo_descriptions(4) demo_cancelled_fields demo_abandoned_fields
        plain_agent_def demo_task_def new_task_def)

lemma post_task_reward_range:
  assumes "tasks s new_id = None"
    and "tasks (snd (post_task caller new_id rawTitle rawDescription rawReward rawSkills rawPr dl s)) new_id = Some r"
  shows "1 \<le> reward r \<and> reward r \<le> 1000000"
  using assms
  by (auto simp add: post_task_def Let_def new_task_def sanitizeInt_def
        split: option.splits if_splits)

text \<open>
  Claim C4 at the spec's example. Alice holds 100 credits and posts a task with reward
  30: her balance becomes 70, and the escrow row that \<^verbatim>\<open>recordTransaction\<close> stores
  carries \<open>balance_after = 40\<close>, the debited balance with the amount applied a second
  time.
\<close>

theorem escrow_row_balance_after:
  "fst (post_task (Some ''A'') ''T'' (Some ''t'') (Some ''d'') (JNum (safe_integer_of 30)) [] None None demo0) =
     Inr ''Task posted. Credits escrowed.'' \<and>
   credits_of demo0 ''A'' = Some 100 \<and>
   credits_of demo1 ''A'' = Some 70 \<and>
   tx_rows demo1 = [(''A'', ''task_escrow'', - 30, 40, Some ''T'')]"
  by (simp add: credits_of_def demo0_fields demo1_fields plain_agent_def post_task_def
        authenticate_def or_null_def sanitizeInt_def Let_def)

lemma post_task_refused_keeps_store:
  assumes "fst (post_task caller new_id rawTitle rawDescription rawReward rawSkills rawPr dl s) = Inl e"
    and "e \<noteq> ServerError"
  shows "snd (post_task caller new_id rawTitle rawDescription rawReward rawSkills rawPr dl s) = s"
  using assms
  by (auto simp add: post_task_def Let_def split: option.splits if_splits)

text \<open>
  Claim C5 at a negative reward. Alice (100 credits) asks for a task with reward
  \<open>- 5\<close>: \<^verbatim>\<open>sanitizeInt\<close> lifts the value to its minimum 1 before the check
  \<^verbatim>\<open>reward < 1\<close> runs, the request succeeds, a task with reward 1 is stored and one
  credit is debited.
\<close>

theorem negative_reward_is_accepted:
  "fst demo_neg = Inr ''Task posted. Credits escrowed.'' \<and>
   map_option reward (tasks (snd demo_neg) ''T'') = Some 1 \<and>
   map_option status (tasks (snd demo_neg) ''T'') = Some Open \<and>
   credits_of demo0 ''A'' = Some 100 \<and>
   credits_of (snd demo_neg) ''A'' = Some 99"
  by (simp add: demo_neg_def credits_of_def demo0_fields plain_agent_def post_task_def
        authenticate_def or_null_def sanitizeInt_def Let_def agents_update_agent new_task_def)

subsection \<open>Dispute resolution\<close>

lemma arbitrationReward_div: "arbitrationReward rew = min 10 (rew div 20)"
proof -
  have "real_of_int rew * (5 / 100) = real_of_int rew / real_of_int 20" by simp
  then have "\<lfloor>real_of_int rew * (5 / 100)\<rfloor> = rew div 20"
    by (simp only: floor_divide_of_int_eq)
  then show ?thesis by (simp add: arbitrationReward_def)
qed

lemma half_floor: "(rew::int) div 2 = \<lfloor>real_of_int rew / 2\<rfloor>"
  using floor_divide_of_int_eq [of rew 2, where ?'a = real] by simp

lemma credits_of_update_agent:
  "credits_of (update_agent a f s) b =
     (if b = a then map_option (credits \<circ> f) (agents s a) else credits_of s b)"
  by (simp add: credits_of_def agents_update_agent option.map_comp)

lemma credits_of_frames [simp]:
  "credits_of (recordTransaction a ty amt descr tId rId s) b = credits_of s b"
  "credits_of (update_task t f s) b = credits_of s b"
  "credits_of (update_dispute d g s) b = credits_of s b"
  "credits_of (createNotification a ty ttl s) b = credits_of s b"
  "credits_of (logTaskEvent t a act s) b = credits_of s b"
  by (simp_all add: credits_of_def)

lemma fold_createNotification_frame [simp]:
  "agents (fold (\<lambda>p. createNotification p ty ttl) ps s) = agents s"
  "tasks (fold (\<lambda>p. createNotification p ty ttl) ps s) = tasks s"
  "disputes (fold (\<lambda>p. createNotification p ty ttl) ps s) = disputes s"
  "transactions (fold (\<lambda>p. createNotification p ty ttl) ps s) = transactions s"
  "reputation_events (fold (\<lambda>p. createNotification p ty ttl) ps s) = reputation_events s"
  by (induction ps arbitrary: s; simp)+

lemma credits_of_fold_createNotification [simp]:
  "credits_of (fold (\<lambda>p. createNotification p ty ttl) ps s) b = credits_of s b"
  by (simp add: credits_of_def)

lemma reward_arbitrator_frame [simp]:
  "tasks (reward_arbitrator aid t r s) = tasks s"
  "disputes (reward_arbitrator aid t r s) = disputes s"
  "reputation_events (reward_arbitrator aid t r s) = reputation_events s"
  by (simp_all add: reward_arbitrator_def Let_def)

lemma credits_of_reward_arbitrator:
  "credits_of (reward_arbitrator aid t r s) b =
     (if b = aid \<and> arbitrationReward (reward r) > 0
      then map_option (\<lambda>c. c + arbitrationReward (reward r)) (credits_of s aid)
      else credits_of s b)"
  by (auto simp add: reward_arbitrator_def Let_def credits_of_def agents_update_agent
        option.map_comp comp_def)

lemma resolve_switch_tasks [simp]: "tasks (snd (resolve_switch dec t r s)) = tasks s"
  by (simp add: resolve_switch_def Let_def split: option.split)

lemma resolve_switch_disputes [simp]: "disputes (snd (resolve_switch dec t r s)) = disputes s"
  by (simp add: resolve_switch_def Let_def split: option.split)

lemma resolve_switch_others:
  assumes "b \<noteq> requester_id r" "Some b \<noteq> worker_id r"
  shows "credits_of (snd (resolve_switch dec t r s)) b = credits_of s b"
  using assms
  by (auto simp add: resolve_switch_def Let_def credits_of_update_agent or_null_def
        split: option.split if_splits)

lemma map_of_update_dispute:
  "map_of (disputes (update_dispute d f s)) k =
     (if k = d then map_option f (map_of (disputes s) d) else map_of (disputes s) k)"
proof -
  have "map_of (map (\<lambda>(k, r). if k = d then (k, f r) else (k, r)) xs) k =
          (if k = d then map_option f (map_of xs d) else map_of xs k)" for xs
    by (induction xs) auto
  then show ?thesis by (simp add: update_dispute_def)
qed


lemma post_resolve_authorized:
  assumes "authenticate caller s = Some (aid, agent)"
    and "map_of (disputes s) dId = Some d" and "tasks s (d_task_id d) = Some r"
    and "d_status d = DisputeOpen"
    and "isInvolved aid d r \<or> isArbitrator aid agent d r"
    and "dec \<in> {''favor_requester'', ''favor_worker'', ''split'', ''cancel''}"
  shows "post_resolve caller dId (Some dec) res now s =
         (Inr ''Dispute resolved'',
          fold (\<lambda>p. createNotification p ''dispute_resolved'' ''Dispute Resolved'') (dispute_parties r)
            ((if isArbitrator aid agent d r then reward_arbitrator aid (d_task_id d) r else id)
               (update_task (d_task_id d) (\<lambda>x. x\<lparr>status := fst (resolve_switch dec (d_task_id d) r s)\<rparr>)
                  (update_dispute dId
                     (\<lambda>x. x\<lparr>d_status := DisputeResolved, resolution := Some (or_default res dec),
                            resolved_by := Some aid, resolved_at := Some now\<rparr>)
                     (snd (resolve_switch dec (d_task_id d) r s))))))"
  using assms
  by (auto simp add: post_resolve_def Let_def split_def)

lemma tx_rows_reward_arbitrator:
  "take (length (tx_rows s)) (tx_rows (reward_arbitrator aid t r s)) = tx_rows s"
  "drop (length (tx_rows s)) (tx_rows (reward_arbitrator aid t r s)) =
     (if arbitrationReward (reward r) > 0
      then [(aid, ''arbitration_reward'', arbitrationReward (reward r),
             (case agents s aid of None \<Rightarrow> 0 | Some x \<Rightarrow> credits x + arbitrationReward (reward r))
               + arbitrationReward (reward r), or_null (Some t))]
      else [])"
  by (auto simp add: reward_arbitrator_def Let_def tx_rows_def recordTransaction_def
        agents_update_agent split: option.split)

lemma tx_rows_frames [simp]:
  "tx_rows (update_task t f s) = tx_rows s"
  "tx_rows (update_dispute d g s) = tx_rows s"
  "tx_rows (update_agent a h s) = tx_rows s"
  "tx_rows (createNotification a ty ttl s) = tx_rows s"
  "tx_rows (fold (\<lambda>p. createNotification p ty ttl) ps s) = tx_rows s"
  "tx_rows (snd (recordReputationEvent a ety opts s)) = tx_rows s"
  by (simp_all add: tx_rows_def)

lemma rep_rows_frames [simp]:
  "rep_rows (update_task t f s) = rep_rows s"
  "rep_rows (update_dispute d g s) = rep_rows s"
  "rep_rows (update_agent a h s) = rep_rows s"
  "rep_rows (createNotification a ty ttl s) = rep_rows s"
  "rep_rows (fold (\<lambda>p. createNotification p ty ttl) ps s) = rep_rows s"
  "rep_rows (reward_arbitrator aid t r s) = rep_rows s"
  "rep_rows (recordTransaction a ty amt descr tId rId s) = rep_rows s"
  by (simp_all add: rep_rows_def)

lemma tx_rows_recordTransaction:
  "tx_rows (recordTransaction a ty amt descr tId rId s) =
     tx_rows s @ [(a, ty, amt, (case agents s a of None \<Rightarrow> 0 | Some x \<Rightarrow> credits x) + amt,
                   or_null tId)]"
  by (simp add: tx_rows_def recordTransaction_def)

lemma split_switch:
  assumes "worker_id r = Some w" "w \<noteq> []" "agents s w = Some wr"
    "agents s (requester_id r) = Some qr" "w \<noteq> requester_id r"
  shows "fst (resolve_switch ''split'' t r s) = Completed"
    and "credits_of (snd (resolve_switch ''split'' t r s)) (requester_id r) =
           Some (credits qr + reward r div 2)"
    and "credits_of (snd (resolve_switch ''split'' t r s)) w =
           Some (credits wr + (reward r - reward r div 2))"
    and "rep_rows (snd (resolve_switch ''split'' t r s)) = rep_rows s"
    and "map (\<lambda>(a, ty, amt, bal, rel). (a, ty, amt, rel))
           (drop (length (tx_rows s)) (tx_rows (snd (resolve_switch ''split'' t r s)))) =
           [(requester_id r, ''refund_partial'', reward r div 2, or_null (Some t)),
            (w, ''task_payment_partial'', reward r - reward r div 2, or_null (Some t))]"
    and "length (tx_rows (snd (resolve_switch ''split'' t r s))) = length (tx_rows s) + 2"
  using assms
  by (simp_all add: resolve_switch_def Let_def or_null_def credits_of_update_agent
        tx_rows_recordTransaction agents_update_agent)


lemma post_resolve_credits_others:
  assumes "authenticate caller s = Some (aid, agent)"
    and "map_of (disputes s) dId = Some d" and "tasks s (d_task_id d) = Some r"
    and "d_status d = DisputeOpen"
    and "isInvolved aid d r \<or> isArbitrator aid agent d r"
    and "dec \<in> {''favor_requester'', ''favor_worker'', ''split'', ''cancel''}"
    and "isArbitrator aid agent d r \<longrightarrow> p \<noteq> aid"
  shows "credits_of (snd (post_resolve caller dId (Some dec) res now s)) p =
         credits_of (snd (resolve_switch dec (d_task_id d) r s)) p"
proof (cases "isArbitrator aid agent d r")
  case True
  with assms(7) have "p \<noteq> aid" by simp
  with True show ?thesis
    by (simp add: post_resolve_authorized [OF assms(1-6)] credits_of_reward_arbitrator)
next
  case False
  then show ?thesis
    by (simp add: post_resolve_authorized [OF assms(1-6)])
qed

lemma take_after_drop:
  assumes "take (length ys) xs = ys" "length ys = k + n"
  shows "take n (drop k xs) = drop k ys"
proof -
  have "take n (drop k xs) = drop k (take (k + n) xs)"
    by (simp add: drop_take)
  with assms show ?thesis by simp
qed

text \<open>
  Claim C7. Resolving an open dispute with decision \<open>split\<close>, on a task that has a
  worker, credits \<open>floor (reward / 2)\<close> to the requester (booked as \<open>refund_partial\<close>)
  and the rest of the reward to the worker (booked as \<open>task_payment_partial\<close>); the two
  amounts add up to the reward. The task ends \<open>completed\<close>, the dispute \<open>resolved\<close>,
  and no reputation event is recorded.
\<close>

theorem split_divides_reward:
  assumes "authenticate caller s = Some (aid, agent)"
    and "map_of (disputes s) dId = Some d" and "tasks s (d_task_id d) = Some r"
    and "d_status d = DisputeOpen"
    and "isInvolved aid d r \<or> isArbitrator aid agent d r"
    and "worker_id r = Some w" and "w \<noteq> []" and "w \<noteq> requester_id r"
    and "agents s w = Some wr" and "agents s (requester_id r) = Some qr"
  shows "fst (post_resolve caller dId (Some ''split'') res now s) = Inr ''Dispute resolved'' \<and>
         credits_of (snd (post_resolve caller dId (Some ''split'') res now s)) (requester_id r) =
           Some (credits qr + \<lfloor>real_of_int (reward r) / 2\<rfloor>) \<and>
         credits_of (snd (post_resolve caller dId (Some ''split'') res now s)) w =
           Some (credits wr + (reward r - \<lfloor>real_of_int (reward r) / 2\<rfloor>)) \<and>
         map (\<lambda>(a, ty, amt, bal, rel). (a, ty, amt, rel))
           (take 2 (drop (length (tx_rows s))
              (tx_rows (snd (post_resolve caller dId (Some ''split'') res now s))))) =
           [(requester_id r, ''refund_partial'', \<lfloor>real_of_int (reward r) / 2\<rfloor>,
               or_null (Some (d_task_id d))),
            (w, ''task_payment_partial'', reward r - \<lfloor>real_of_int (reward r) / 2\<rfloor>,
               or_null (Some (d_task_id d)))] \<and>
         \<lfloor>real_of_int (reward r) / 2\<rfloor> + (reward r - \<lfloor>real_of_int (reward r) / 2\<rfloor>) = reward r \<and>
         map_option status (tasks (snd (post_resolve caller dId (Some ''split'') res now s)) (d_task_id d)) =
           Some Completed \<and>
         map_option d_status (map_of (disputes (snd (post_resolve caller dId (Some ''split'') res now s))) dId) =
           Some DisputeResolved \<and>
         rep_rows (snd (post_resolve caller dId (Some ''split'') res now s)) = rep_rows s"
proof -
  let ?t = "d_task_id d"
  let ?s1 = "snd (resolve_switch ''split'' ?t r s)"
  let ?s' = "snd (post_resolve caller dId (Some ''split'') res now s)"
  note sw = split_switch [OF assms(6,7,9,10,8), of ?t]
  have dec: "''split'' \<in> {''favor_requester'', ''favor_worker'', ''split'', ''cancel''}" by simp
  note pr = post_resolve_authorized [OF assms(1-5) dec, of res now]
  have ne: "isArbitrator aid agent d r \<longrightarrow> requester_id r \<noteq> aid"
           "isArbitrator aid agent d r \<longrightarrow> w \<noteq> aid"
    using assms(6) by (auto simp: isArbitrator_def isInvolved_def)
  have c1: "credits_of ?s' (requester_id r) = Some (credits qr + reward r div 2)"
    using post_resolve_credits_others [OF assms(1-5) dec ne(1), of res now] sw(2) by simp
  have c2: "credits_of ?s' w = Some (credits wr + (reward r - reward r div 2))"
    using post_resolve_credits_others [OF assms(1-5) dec ne(2), of res now] sw(3) by simp
  have tx: "take 2 (drop (length (tx_rows s)) (tx_rows ?s')) = drop (length (tx_rows s)) (tx_rows ?s1)"
  proof (cases "isArbitrator aid agent d r")
    case False
    then show ?thesis using sw(6) by (simp add: pr)
  next
    case True
    let ?s3 = "update_task ?t (\<lambda>x. x\<lparr>status := Completed\<rparr>)
                 (update_dispute dId
                    (\<lambda>x. x\<lparr>d_status := DisputeResolved, resolution := Some (or_default res ''split''),
                           resolved_by := Some aid, resolved_at := Some now\<rparr>) ?s1)"
    have l3: "tx_rows ?s3 = tx_rows ?s1" by simp
    have "take (length (tx_rows ?s1)) (tx_rows (reward_arbitrator aid ?t r ?s3)) = tx_rows ?s1"
      using tx_rows_reward_arbitrator(1) [of ?s3 aid ?t r] by (simp only: l3)
    then have "take 2 (drop (length (tx_rows s)) (tx_rows (reward_arbitrator aid ?t r ?s3))) =
               drop (length (tx_rows s)) (tx_rows ?s1)"
      using sw(6) by (rule take_after_drop)
    with True show ?thesis by (simp add: pr sw(1))
  qed
  have st: "map_option status (tasks ?s' ?t) = Some Completed"
    using assms(3) sw(1) by (simp add: pr tasks_update_task)
  have ds: "map_option d_status (map_of (disputes ?s') dId) = Some DisputeResolved"
    using assms(2) by (simp add: pr map_of_update_dispute)
  have rr: "rep_rows ?s' = rep_rows s"
    using sw(4) by (simp add: pr)
  have ok: "fst (post_resolve caller dId (Some ''split'') res now s) = Inr ''Dispute resolved''"
    by (simp add: pr)
  have ar: "\<lfloor>real_of_int (reward r) / 2\<rfloor> + (reward r - \<lfloor>real_of_int (reward r) / 2\<rfloor>) = reward r"
    by simp
  show ?thesis
    unfolding half_floor [symmetric]
    using ok c1 c2 tx sw(5) st ds rr by simp
qed

lemma demo0_carol: "agents demo0 ''C'' = Some (plain_agent ''Carol'' 100 85)"
  by (simp add: demo0_def empty_pit_def)

lemma post_task_others:
  "b \<noteq> a \<Longrightarrow> agents (snd (post_task (Some a) nid tt dd rw sk pr dl s)) b = agents s b"
  by (auto simp add: post_task_def authenticate_def Let_def agents_update_agent split: option.split)

lemma post_claim_agents: "agents (snd (post_claim c t n s)) = agents s"
  by (auto simp add: post_claim_def claim_finish_def claim_update_def Let_def split: option.split)

lemma post_submit_agents: "agents (snd (post_submit c t p n s)) = agents s"
  by (auto simp add: post_submit_def Let_def split: option.split)

lemma demo3_carol: "agents demo3 ''C'' = Some (plain_agent ''Carol'' 100 85)"
  by (simp add: demo3_def demo2_def demo1_def post_submit_agents post_claim_agents
        post_task_others demo0_carol)

lemma post_task_disputes: "disputes (snd (post_task c nid tt dd rw sk pr dl s)) = disputes s"
  by (auto simp add: post_task_def Let_def split: option.split)

lemma post_claim_disputes: "disputes (snd (post_claim c t n s)) = disputes s"
  by (auto simp add: post_claim_def claim_finish_def claim_update_def Let_def split: option.split)

lemma post_submit_disputes: "disputes (snd (post_submit c t p n s)) = disputes s"
  by (auto simp add: post_submit_def Let_def split: option.split)

lemma demo3_disputes: "disputes demo3 = []"
  by (simp add: demo3_def demo2_def demo1_def post_submit_disputes post_claim_disputes
        post_task_disputes demo0_def empty_pit_def)

lemma sanitize_bad [simp]: "sanitizeString ''bad'' (Some 2000) = ''bad''"
  by (simp add: sanitizeString_def trim_def is_space_def escapeHtml_def htmlEntities_def)

lemma demo_d_fields:
  "fst (post_dispute (Some ''A'') ''D'' (Some ''T'') (Some ''bad'') None demo3) =
     Inr ''Dispute raised. A moderator will review.''"
  "agents demo_d ''A'' = Some ((plain_agent ''Alice'' 70 50)\<lparr>tasks_posted := 1\<rparr>)"
  "agents demo_d ''B'' = Some (plain_agent ''Bob'' 100 50)"
  "agents demo_d ''C'' = Some (plain_agent ''Carol'' 100 85)"
  "tasks demo_d ''T'' = Some (demo_task\<lparr>status := Disputed, worker_id := Some ''B'', claimed_at := Some 1,
       proof_submitted := Some ''done'', submitted_at := Some 2\<rparr>)"
  "disputes demo_d = [(''D'', demo_dispute)]"
  "tx_rows demo_d = [(''A'', ''task_escrow'', - 30, 40, Some ''T'')]"
  using demo3_fields demo3_carol demo3_disputes
  by (simp_all add: demo_d_def post_dispute_def authenticate_def or_null_def demo_dispute_def
        new_task_def demo_task_def Let_def tasks_update_task tx_rows_def)

theorem split_divides_reward_witness:
  "authenticate (Some ''C'') demo_d = Some (''C'', plain_agent ''Carol'' 100 85) \<and>
   map_of (disputes demo_d) ''D'' = Some demo_dispute \<and>
   d_status demo_dispute = DisputeOpen \<and>
   map_option worker_id (tasks demo_d (d_task_id demo_dispute)) = Some (Some ''B'') \<and>
   map_option requester_id (tasks demo_d (d_task_id demo_dispute)) = Some ''A'' \<and>
   map_option reward (tasks demo_d (d_task_id demo_dispute)) = Some 30 \<and>
   isArbitrator ''C'' (plain_agent ''Carol'' 100 85) demo_dispute
     (demo_task\<lparr>status := Disputed, worker_id := Some ''B'', claimed_at := Some 1,
        proof_submitted := Some ''done'', submitted_at := Some 2\<rparr>) \<and>
   credits_of demo_d ''A'' = Some 70 \<and> credits_of demo_d ''B'' = Some 100 \<and>
   credits_of demo_split ''A'' = Some 85 \<and> credits_of demo_split ''B'' = Some 115 \<and>
   map_option status (tasks demo_split ''T'') = Some Completed \<and>
   map_option d_status (map_of (disputes demo_split) ''D'') = Some DisputeResolved \<and>
   rep_rows demo_split = rep_rows demo_d"
  using split_divides_reward [of "Some ''C''" demo_d "''C''" "plain_agent ''Carol'' 100 85"
      "''D''" demo_dispute
      "demo_task\<lparr>status := Disputed, worker_id := Some ''B'', claimed_at := Some 1,
          proof_submitted := Some ''done'', submitted_at := Some 2\<rparr>"
      "''B''" "plain_agent ''Bob'' 100 50" "(plain_agent ''Alice'' 70 50)\<lparr>tasks_posted := 1\<rparr>" None 4]
    demo_d_fields
  by (simp add: authenticate_def demo_split_def demo_task_def new_task_def plain_agent_def
        demo_dispute_def isArbitrator_def isInvolved_def credits_of_def)

lemma no_debit_refl: "no_debit s s"
  by (simp add: no_debit_def)

lemma no_debit_tx:
  "no_debit s s1 \<Longrightarrow> no_debit s (recordTransaction a ty amt descr tId rId s1)"
  by (simp add: no_debit_def)

lemma no_debit_rep:
  "no_debit s s1 \<Longrightarrow> no_debit s (snd (recordReputationEvent a ty opts s1))"
  by (simp add: no_debit_def)

lemma no_debit_credit:
  assumes "no_debit s s1" "\<And>x. credits x \<le> credits (f x)"
  shows "no_debit s (update_agent a f s1)"
  unfolding no_debit_def
proof (intro allI impI)
  fix p c
  assume "credits_of s p = Some c"
  with assms(1) obtain c1 where c1: "credits_of s1 p = Some c1" "c \<le> c1"
    by (auto simp: no_debit_def)
  show "\<exists>c'. credits_of (update_agent a f s1) p = Some c' \<and> c \<le> c'"
  proof (cases "p = a")
    case False
    with c1 show ?thesis by (simp add: credits_of_update_agent)
  next
    case True
    with c1 obtain x where x: "agents s1 a = Some x" "credits x = c1"
      by (auto simp: credits_of_def)
    with True assms(2) [of x] c1(2) show ?thesis
      by (simp add: credits_of_update_agent)
  qed
qed

lemma arith_half:
  assumes "0 \<le> (k::int)"
  shows "0 \<le> k div 2" "0 \<le> k - k div 2"
  using assms by linarith+

lemma resolve_switch_no_debit:
  assumes "0 \<le> reward r"
  shows "no_debit s (snd (resolve_switch dec t r s))"
proof -
  note rules = no_debit_tx no_debit_rep no_debit_credit no_debit_refl
  have fw: "no_debit s (snd (resolve_switch ''favor_worker'' t r s))"
    using assms by (simp add: resolve_switch_def Let_def rules split: option.split)
  have fr: "no_debit s (snd (resolve_switch ''favor_requester'' t r s))"
    using assms by (simp add: resolve_switch_def Let_def rules split: option.split)
  have sp: "no_debit s (snd (resolve_switch ''split'' t r s))"
    using arith_half [OF assms]
    by (simp add: resolve_switch_def Let_def rules split: option.split)
  have ca: "no_debit s (snd (resolve_switch ''cancel'' t r s))"
    using assms by (simp add: resolve_switch_def Let_def rules split: option.split)
  have other: "no_debit s (snd (resolve_switch dec t r s))"
    if "dec \<notin> {''favor_worker'', ''favor_requester'', ''split'', ''cancel''}"
    using that by (simp add: resolve_switch_def rules)
  show ?thesis
    using fw fr sp ca other by blast
qed

text \<open>
  Claim C9. When an open dispute is resolved by an arbitrator (an agent with
  reputation at least 80 who is neither the raiser nor the requester nor the worker),
  on a task whose reward is not negative, the arbitrator's balance grows by exactly
  \<open>min 10 (floor (reward * 0.05))\<close>; every other balance is what the chosen decision
  alone makes it, and no agent's balance is lower after the resolution than before.
\<close>

theorem arbitrator_fee_is_subsidy:
  assumes "authenticate caller s = Some (aid, agent)"
    and "map_of (disputes s) dId = Some d" and "tasks s (d_task_id d) = Some r"
    and "d_status d = DisputeOpen"
    and "isArbitrator aid agent d r"
    and "dec \<in> {''favor_requester'', ''favor_worker'', ''split'', ''cancel''}"
    and "0 \<le> reward r"
  shows "fst (post_resolve caller dId (Some dec) res now s) = Inr ''Dispute resolved'' \<and>
         credits_of (snd (post_resolve caller dId (Some dec) res now s)) aid =
           Some (credits agent + min 10 \<lfloor>real_of_int (reward r) * (5 / 100)\<rfloor>) \<and>
         (\<forall>p. p \<noteq> aid \<longrightarrow>
            credits_of (snd (post_resolve caller dId (Some dec) res now s)) p =
            credits_of (snd (resolve_switch dec (d_task_id d) r s)) p) \<and>
         (\<forall>p c. credits_of s p = Some c \<longrightarrow>
            (\<exists>c'. credits_of (snd (post_resolve caller dId (Some dec) res now s)) p = Some c' \<and>
                  c \<le> c'))"
proof -
  let ?t = "d_task_id d"
  let ?s1 = "snd (resolve_switch dec ?t r s)"
  let ?s' = "snd (post_resolve caller dId (Some dec) res now s)"
  have auth: "isInvolved aid d r \<or> isArbitrator aid agent d r" using assms(5) by simp
  note pr = post_resolve_authorized [OF assms(1-4) auth assms(6), of res now]
  have ne: "aid \<noteq> requester_id r" "Some aid \<noteq> worker_id r"
    using assms(5) by (auto simp: isArbitrator_def isInvolved_def)
  have ag: "credits_of s aid = Some (credits agent)"
    using authenticate_Some [OF assms(1)] by (simp add: credits_of_def)
  have fee: "0 \<le> arbitrationReward (reward r)"
    using assms(7) by (simp add: arbitrationReward_div)
  have a1: "credits_of ?s1 aid = Some (credits agent)"
    using resolve_switch_others [OF ne, of dec ?t s] ag by simp
  have mine: "credits_of ?s' aid = Some (credits agent + arbitrationReward (reward r))"
    using assms(5) a1 fee by (auto simp add: pr credits_of_reward_arbitrator)
  have others: "credits_of ?s' p = credits_of ?s1 p" if "p \<noteq> aid" for p
    using post_resolve_credits_others [OF assms(1-4) auth assms(6), of p res now] that by simp
  have mono: "\<exists>c'. credits_of ?s' p = Some c' \<and> c \<le> c'" if "credits_of s p = Some c" for p c
  proof (cases "p = aid")
    case True
    with that ag mine fee show ?thesis by simp
  next
    case False
    with others [of p] resolve_switch_no_debit [OF assms(7), of s dec ?t] that show ?thesis
      by (simp add: no_debit_def)
  qed
  have ok: "fst (post_resolve caller dId (Some dec) res now s) = Inr ''Dispute resolved''"
    by (simp add: pr)
  show ?thesis
    using ok mine others mono by (simp add: arbitrationReward_def)
qed

theorem arbitrator_fee_is_subsidy_witness:
  "authenticate (Some ''C'') demo_d = Some (''C'', plain_agent ''Carol'' 100 85) \<and>
   map_of (disputes demo_d) ''D'' = Some demo_dispute \<and>
   d_status demo_dispute = DisputeOpen \<and>
   map_option reward (tasks demo_d (d_task_id demo_dispute)) = Some 30 \<and>
   isArbitrator ''C'' (plain_agent ''Carol'' 100 85) demo_dispute
     (demo_task\<lparr>status := Disputed, worker_id := Some ''B'', claimed_at := Some 1,
        proof_submitted := Some ''done'', submitted_at := Some 2\<rparr>) \<and>
   credits_of demo_d ''C'' = Some 100 \<and>
   credits_of demo_split ''C'' = Some 101 \<and>
   (\<exists>a b. credits_of demo_split ''A'' = Some a \<and> 70 \<le> a \<and>
          credits_of demo_split ''B'' = Some b \<and> 100 \<le> b)"
proof -
  let ?r = "demo_task\<lparr>status := Disputed, worker_id := Some ''B'', claimed_at := Some 1,
              proof_submitted := Some ''done'', submitted_at := Some 2\<rparr>"
  have h1: "authenticate (Some ''C'') demo_d = Some (''C'', plain_agent ''Carol'' 100 85)"
    by (simp add: authenticate_def demo_d_fields)
  have h2: "map_of (disputes demo_d) ''D'' = Some demo_dispute"
    by (simp add: demo_d_fields)
  have h3: "tasks demo_d (d_task_id demo_dispute) = Some ?r"
    by (simp add: demo_d_fields demo_dispute_def)
  have h4: "d_status demo_dispute = DisputeOpen"
    by (simp add: demo_dispute_def)
  have h5: "isArbitrator ''C'' (plain_agent ''Carol'' 100 85) demo_dispute ?r"
    by (simp add: isArbitrator_def isInvolved_def plain_agent_def demo_dispute_def
          demo_task_def new_task_def)
  have h6: "''split'' \<in> {''favor_requester'', ''favor_worker'', ''split'', ''cancel''}"
    by simp
  have h7: "0 \<le> reward ?r"
    by (simp add: demo_task_def new_task_def)
  note th = arbitrator_fee_is_subsidy [OF h1 h2 h3 h4 h5 h6 h7, of None 4, folded demo_split_def]
  have fee: "credits_of demo_split ''C'' = Some 101"
    using th by (simp add: plain_agent_def demo_task_def new_task_def)
  have mono: "credits_of demo_d p = Some c \<Longrightarrow>
              \<exists>c'. credits_of demo_split p = Some c' \<and> c \<le> c'" for p c
    using th by blast
  have a: "credits_of demo_d ''A'' = Some 70" "credits_of demo_d ''B'' = Some 100"
    "credits_of demo_d ''C'' = Some 100"
    by (simp_all add: credits_of_def demo_d_fields plain_agent_def)
  have rw: "map_option reward (tasks demo_d (d_task_id demo_dispute)) = Some 30"
    by (simp add: h3 demo_task_def new_task_def)
  show ?thesis
    using h1 h2 h4 h5 rw a(3) fee mono [OF a(1)] mono [OF a(2)] by blast
qed

lemma post_validate_disputes: "disputes (snd (post_validate c t ok rsn n s)) = disputes s"
  by (auto simp add: post_validate_def approve_work_def reject_work_def Let_def
        split: option.split)

lemma demo8_fields:
  "fst (post_validate (Some ''A'') ''T'' (Some True) None 3 demo3) = Inr ''Task completed. Worker paid.''"
  "agents demo8 ''A'' = Some ((plain_agent ''Alice'' 70 50)\<lparr>tasks_posted := 1\<rparr>)"
  "agents demo8 ''B'' = Some ((plain_agent ''Bob'' 130 58)\<lparr>tasks_completed := 1\<rparr>)"
  "tasks demo8 ''T'' = Some (demo_task\<lparr>status := Completed, worker_id := Some ''B'', claimed_at := Some 1,
       proof_submitted := Some ''done'', submitted_at := Some 2, completed_at := Some 3\<rparr>)"
  "disputes demo8 = []"
  "tx_rows demo8 = [(''A'', ''task_escrow'', - 30, 40, Some ''T''),
                    (''B'', ''task_payment'', 30, 160, Some ''T'')]"
  using demo3_fields demo3_disputes
  by (simp_all add: demo8_def post_validate_disputes, simp_all add: post_validate_def approve_work_def authenticate_def or_null_def
        new_task_def demo_task_def Let_def tasks_update_task agents_update_agent
        agents_recordReputationEvent clamp_reputation_def plain_agent_def
        event_points_def no_options_def tx_rows_def recordTransaction_def)

lemma demo9_fields:
  "fst (post_dispute (Some ''A'') ''D'' (Some ''T'') (Some ''bad'') None demo8) =
     Inr ''Dispute raised. A moderator will review.''"
  "agents demo9 ''A'' = Some ((plain_agent ''Alice'' 70 50)\<lparr>tasks_posted := 1\<rparr>)"
  "agents demo9 ''B'' = Some ((plain_agent ''Bob'' 130 58)\<lparr>tasks_completed := 1\<rparr>)"
  "tasks demo9 ''T'' = Some (demo_task\<lparr>status := Disputed, worker_id := Some ''B'', claimed_at := Some 1,
       proof_submitted := Some ''done'', submitted_at := Some 2, completed_at := Some 3\<rparr>)"
  "disputes demo9 = [(''D'', demo_dispute)]"
  "tx_rows demo9 = tx_rows demo8"
  using demo8_fields
  by (simp_all add: demo9_def post_dispute_def authenticate_def or_null_def demo_dispute_def
        new_task_def demo_task_def Let_def tasks_update_task tx_rows_def)

lemma demo10_fields:
  "fst (post_resolve (Some ''B'') ''D'' (Some ''favor_worker'') None 5 demo9) = Inr ''Dispute resolved''"
  "map_option status (tasks demo10 ''T'') = Some Completed"
  "credits_of demo10 ''A'' = Some 70"
  "credits_of demo10 ''B'' = Some 160"
  "tx_rows demo10 = [(''A'', ''task_escrow'', - 30, 40, Some ''T''),
                     (''B'', ''task_payment'', 30, 160, Some ''T''),
                     (''B'', ''task_payment'', 30, 190, Some ''T'')]"
  using demo9_fields demo8_fields(6)
  by (simp_all add: demo10_def post_resolve_def resolve_switch_def authenticate_def or_null_def
        demo_dispute_def isInvolved_def isArbitrator_def dispute_parties_def
        new_task_def demo_task_def Let_def tasks_update_task agents_recordReputationEvent
        agents_update_agent plain_agent_def tx_rows_recordTransaction credits_of_def)


text \<open>
  Claim C1 on the two kinds of run it names. First run: task \<open>T\<close> (reward 30) is posted,
  claimed, submitted and rejected, then claimed and submitted again and approved.
  Second run: \<open>T\<close> is posted, claimed, submitted and approved (at that point the amounts
  booked on it add up to 0), then the requester raises a dispute on the completed task
  and the worker resolves it with \<open>favor_worker\<close>. Both runs end with \<open>T\<close> completed
  and with three rows booked on it, \<open>- 30\<close>, \<open>+ 30\<close> and \<open>+ 30\<close>, which add up to 30.
\<close>

theorem completed_task_sum_not_zero:
  "map_option status (tasks demo7 ''T'') = Some Completed \<and>
   map (\<lambda>(a, ty, amt, bal, rel). (a, ty, amt)) (tx_rows demo7) =
     [(''A'', ''task_escrow'', - 30), (''A'', ''escrow_release'', 30), (''B'', ''task_payment'', 30)] \<and>
   task_tx_sum demo7 ''T'' = 30 \<and>
   map_option status (tasks demo8 ''T'') = Some Completed \<and>
   task_tx_sum demo8 ''T'' = 0 \<and>
   map_option status (tasks demo10 ''T'') = Some Completed \<and>
   map (\<lambda>(a, ty, amt, bal, rel). (a, ty, amt)) (tx_rows demo10) =
     [(''A'', ''task_escrow'', - 30), (''B'', ''task_payment'', 30), (''B'', ''task_payment'', 30)] \<and>
   task_tx_sum demo10 ''T'' = 30"
  by (simp add: demo7_fields demo8_fields demo10_fields task_tx_sum_rows)

subsection \<open>Concurrent claims\<close>

lemma post_claim_sequential:
  assumes "pc a = AtCheck"
  shows "run_claims t [(a, n), (a, n), (a, n)] (s, pc) =
         (snd (post_claim (Some a) t n s), pc(a := Finished (fst (post_claim (Some a) t n s))))"
  using assms
  by (auto simp add: run_claims_def claim_step_def post_claim_def authenticate_def
        split: option.split prod.split)

lemma claim_update_noop:
  assumes "tasks s t = Some r" "status r \<noteq> Open"
  shows "claim_update a t n s = s"
proof -
  have "(tasks s)(t \<mapsto> r) = tasks s" using assms(1) by (rule map_upd_triv)
  with assms show ?thesis by (simp add: claim_update_def update_task_def)
qed


lemma claim_update_open:
  assumes "tasks s0 t = Some r0" "status r0 = Open"
  shows "tasks (claim_update w t n s0) t =
           Some (r0\<lparr>status := Claimed, worker_id := Some w, claimed_at := Some n\<rparr>)"
    and "agents (claim_update w t n s0) = agents s0"
  using assms by (simp_all add: claim_update_def tasks_update_task)

lemma claim_finish_winner:
  assumes "tasks s0 t = Some r0" "status r0 = Open"
  shows "claim_finish w t q (claim_update w t n s0) =
           (Inr ''Task claimed. Get to work.'',
            createNotification q ''task_claimed'' ''Task Claimed''
              (logTaskEvent t w ''claimed'' (claim_update w t n s0)))"
  using claim_update_open [OF assms, of w n]
  by (simp add: claim_finish_def claim_verify_def Let_def)

lemma post_claim_winner:
  assumes "tasks s0 t = Some r0" "status r0 = Open" "agents s0 w \<noteq> None" "w \<noteq> requester_id r0"
  shows "post_claim (Some w) t n s0 =
           (Inr ''Task claimed. Get to work.'',
            createNotification (requester_id r0) ''task_claimed'' ''Task Claimed''
              (logTaskEvent t w ''claimed'' (claim_update w t n s0)))"
  using assms claim_finish_winner [OF assms(1,2), of w "requester_id r0" n]
  by (auto simp add: post_claim_def authenticate_def claim_check_def)

lemma claimed_store:
  assumes "tasks s0 t = Some r0" "status r0 = Open" "agents s0 w \<noteq> None" "w \<noteq> requester_id r0"
    and "s = claim_update w t n s0 \<or> s = snd (post_claim (Some w) t n s0)"
  shows "tasks s t = Some (r0\<lparr>status := Claimed, worker_id := Some w, claimed_at := Some n\<rparr>)"
    and "agents s = agents s0"
  using assms(5) claim_update_open [OF assms(1,2), of w n]
  by (auto simp add: post_claim_winner [OF assms(1-4)])

lemma loser_step:
  assumes "tasks s t = Some r" "status r = Claimed" "worker_id r = Some w" "a \<noteq> w"
    and "agents s a \<noteq> None" and "loser_pc q (pc a)"
  shows "fst (claim_step t (a, n) (s, pc)) = s"
    and "loser_pc q (snd (claim_step t (a, n) (s, pc)) a)"
    and "b \<noteq> a \<Longrightarrow> snd (claim_step t (a, n) (s, pc)) b = pc b"
proof -
  have noop: "claim_update a t n s = s"
    using claim_update_noop [OF assms(1)] assms(2) by simp
  have chk: "claim_check a t s = Some TaskNotOpen"
    using assms(1,2) by (simp add: claim_check_def)
  have fin: "claim_finish a t q s = (Inl ClaimedByAnother, s)"
    using assms(1,3,4) by (simp add: claim_finish_def claim_verify_def)
  have auth: "authenticate (Some a) s \<noteq> None"
    using assms(5) by (simp add: authenticate_def)
  from assms(6) consider "pc a = AtCheck" | "pc a = AtUpdate q" | "pc a = AtVerify q"
    | "pc a = Finished (Inl ClaimedByAnother)" | "pc a = Finished (Inl TaskNotOpen)"
    by (auto simp: loser_pc_def)
  then have "fst (claim_step t (a, n) (s, pc)) = s \<and>
             loser_pc q (snd (claim_step t (a, n) (s, pc)) a) \<and>
             (b \<noteq> a \<longrightarrow> snd (claim_step t (a, n) (s, pc)) b = pc b)"
    using noop chk fin auth
    by cases (auto simp add: claim_step_def loser_pc_def split: option.split)
  then show "fst (claim_step t (a, n) (s, pc)) = s"
    and "loser_pc q (snd (claim_step t (a, n) (s, pc)) a)"
    and "b \<noteq> a \<Longrightarrow> snd (claim_step t (a, n) (s, pc)) b = pc b"
    by simp_all
qed


lemma claim_inv_mono: "claim_inv s0 t q P run \<Longrightarrow> P \<subseteq> P' \<Longrightarrow> claim_inv s0 t q P' run"
  by (cases run) (auto simp add: claim_inv_def)

lemma claim_inv_claimed:
  assumes "(w, m) \<in> P" "agents s0 w \<noteq> None" "w \<noteq> q"
    and "\<forall>a. a \<noteq> w \<longrightarrow> loser_pc q (pc a)"
    and "(s = claim_update w t m s0 \<and> pc w = AtVerify q) \<or>
         (s = snd (post_claim (Some w) t m s0) \<and>
          pc w = Finished (Inr ''Task claimed. Get to work.''))"
  shows "claim_inv s0 t q P (s, pc)"
proof -
  have "\<exists>w n. (w, n) \<in> P \<and> agents s0 w \<noteq> None \<and> w \<noteq> q \<and>
           (\<forall>a. a \<noteq> w \<longrightarrow> loser_pc q (pc a)) \<and>
           ((s = claim_update w t n s0 \<and> pc w = AtVerify q) \<or>
            (s = snd (post_claim (Some w) t n s0) \<and>
             pc w = Finished (Inr ''Task claimed. Get to work.'')))"
    using assms by (intro exI [of _ w] exI [of _ m]) (intro conjI; assumption)
  then show ?thesis
    unfolding claim_inv_def prod.case by (rule disjI2)
qed

lemma claim_inv_step:
  assumes t0: "tasks s0 t = Some r0" "status r0 = Open"
    and inv: "claim_inv s0 t (requester_id r0) P run"
    and a: "agents s0 a \<noteq> None" "a \<noteq> requester_id r0"
  shows "claim_inv s0 t (requester_id r0) (insert (a, n) P) (claim_step t (a, n) run)"
proof -
  let ?q = "requester_id r0"
  let ?ok = "Finished (Inr ''Task claimed. Get to work.'')"
  obtain s pc where run: "run = (s, pc)" by (cases run)
  from inv run consider
      (fresh) "s = s0" "\<forall>b. pc b = AtCheck \<or> pc b = AtUpdate ?q"
    | (claimed) w m where "(w, m) \<in> P" "agents s0 w \<noteq> None" "w \<noteq> ?q"
        "\<forall>b. b \<noteq> w \<longrightarrow> loser_pc ?q (pc b)"
        "(s = claim_update w t m s0 \<and> pc w = AtVerify ?q) \<or>
         (s = snd (post_claim (Some w) t m s0) \<and> pc w = ?ok)"
    by (auto simp add: claim_inv_def)
  then show ?thesis
  proof cases
    case fresh
    have auth: "authenticate (Some a) s0 \<noteq> None" using a(1) by (simp add: authenticate_def)
    have chk: "claim_check a t s0 = None" using t0 a(2) by (simp add: claim_check_def)
    from fresh(2) have "pc a = AtCheck \<or> pc a = AtUpdate ?q" by simp
    then show ?thesis
    proof
      assume "pc a = AtCheck"
      then have "claim_step t (a, n) (s0, pc) = (s0, pc(a := AtUpdate ?q))"
        using auth chk t0 by (auto simp add: claim_step_def)
      with fresh run show ?thesis by (simp add: claim_inv_def)
    next
      assume "pc a = AtUpdate ?q"
      then have st: "claim_step t (a, n) (s0, pc) = (claim_update a t n s0, pc(a := AtVerify ?q))"
        by (simp add: claim_step_def)
      have "\<forall>b. b \<noteq> a \<longrightarrow> loser_pc ?q (pc b)"
        using fresh(2) by (auto simp add: loser_pc_def)
      then have "claim_inv s0 t ?q (insert (a, n) P) (claim_update a t n s0, pc(a := AtVerify ?q))"
        using a by (intro claim_inv_claimed [where w = a and m = n]) simp_all
      with st fresh run show ?thesis by simp
    qed
  next
    case claimed
    let ?r = "r0\<lparr>status := Claimed, worker_id := Some w, claimed_at := Some m\<rparr>"
    have store: "tasks s t = Some ?r" "agents s = agents s0"
      using claimed_store [OF t0 claimed(2,3), of s m] claimed(5) by blast+
    show ?thesis
    proof (cases "a = w")
      case False
      have la: "loser_pc ?q (pc a)" using claimed(4) False by simp
      have ag: "agents s a \<noteq> None" using a(1) store(2) by simp
      have r1: "status ?r = Claimed" "worker_id ?r = Some w" by simp_all
      note ls = loser_step [where s = s and t = t and r = "?r" and w = w and a = a
          and q = "?q" and pc = pc and n = n, OF store(1) r1 False ag la]
      obtain s' pc' where st: "claim_step t (a, n) (s, pc) = (s', pc')"
        by (cases "claim_step t (a, n) (s, pc)")
      have s': "s' = s" using ls(1) st by simp
      have pa: "loser_pc ?q (pc' a)" using ls(2) st by simp
      have po: "pc' b = pc b" if "b \<noteq> a" for b using ls(3) [OF that] st by simp
      have pw: "pc' w = pc w" using po [of w] False by simp
      have lo: "\<forall>b. b \<noteq> w \<longrightarrow> loser_pc ?q (pc' b)"
      proof (intro allI impI)
        fix b assume "b \<noteq> w"
        then show "loser_pc ?q (pc' b)"
          using pa po [of b] claimed(4) by (cases "b = a") simp_all
      qed
      have "claim_inv s0 t ?q (insert (a, n) P) (s', pc')"
        using claimed(1,2,3,5) lo s' pw
        by (intro claim_inv_claimed [where w = w and m = m]) simp_all
      then show ?thesis by (simp add: run st)
    next
      case True
      from claimed(5) show ?thesis
      proof
        assume h: "s = claim_update w t m s0 \<and> pc w = AtVerify ?q"
        have st: "claim_step t (a, n) (s, pc) = (snd (post_claim (Some w) t m s0), pc(w := ?ok))"
          using h True claim_finish_winner [OF t0, of w ?q m] post_claim_winner [OF t0 claimed(2,3), of m]
          by (simp add: claim_step_def)
        have "claim_inv s0 t ?q (insert (a, n) P) (snd (post_claim (Some w) t m s0), pc(w := ?ok))"
          using claimed(1,2,3,4)
          by (intro claim_inv_claimed [where w = w and m = m]) simp_all
        then show ?thesis by (simp add: run st)
      next
        assume h: "s = snd (post_claim (Some w) t m s0) \<and> pc w = ?ok"
        then have st: "claim_step t (a, n) (s, pc) = (s, pc)"
          using True by (simp add: claim_step_def)
        have "claim_inv s0 t ?q (insert (a, n) P) (s, pc)"
          using claimed(1,2,3,4) h
          by (intro claim_inv_claimed [where w = w and m = m]) simp_all
        then show ?thesis by (simp add: run st)
      qed
    qed
  qed
qed

lemma claim_inv_run:
  assumes t0: "tasks s0 t = Some r0" "status r0 = Open"
    and valid: "\<forall>(a, n) \<in> set sched. agents s0 a \<noteq> None \<and> a \<noteq> requester_id r0"
    and inv: "claim_inv s0 t (requester_id r0) P run"
  shows "claim_inv s0 t (requester_id r0) (P \<union> set sched) (run_claims t sched run)"
  using valid inv
proof (induction sched arbitrary: P run)
  case Nil
  then show ?case by (simp add: run_claims_def)
next
  case (Cons e sched)
  obtain a n where e: "e = (a, n)" by (cases e)
  have v: "\<forall>(a, n) \<in> set sched. agents s0 a \<noteq> None \<and> a \<noteq> requester_id r0"
    using Cons.prems(1) by simp
  have "claim_inv s0 t (requester_id r0) (insert (a, n) P) (claim_step t (a, n) run)"
    using claim_inv_step [OF t0 Cons.prems(2)] Cons.prems(1) e by simp
  then have "claim_inv s0 t (requester_id r0) (insert (a, n) P \<union> set sched)
               (run_claims t sched (claim_step t (a, n) run))"
    by (rule Cons.IH [OF v])
  moreover have "insert (a, n) P \<union> set sched = P \<union> set (e # sched)"
    using e by simp
  moreover have "run_claims t (e # sched) run = run_claims t sched (claim_step t (a, n) run)"
    using e by (simp add: run_claims_def)
  ultimately show ?case by simp
qed

lemma claim_inv_start: "claim_inv s0 t q {} (s0, idle)"
  by (simp add: claim_inv_def idle_def)

lemma claim_run_outcome:
  assumes "tasks s0 t = Some r0" and "status r0 = Open"
    and "\<forall>(a, n) \<in> set sched. agents s0 a \<noteq> None \<and> a \<noteq> requester_id r0"
    and "sched \<noteq> []"
    and "run_claims t sched (s0, idle) = (s', pc')"
    and "\<forall>(a, n) \<in> set sched. \<exists>res. pc' a = Finished res"
  shows "\<exists>w n. (w, n) \<in> set sched \<and>
           pc' w = Finished (Inr ''Task claimed. Get to work.'') \<and>
           s' = snd (post_claim (Some w) t n s0) \<and>
           map_option status (tasks s' t) = Some Claimed \<and>
           map_option worker_id (tasks s' t) = Some (Some w) \<and>
           (\<forall>(a, k) \<in> set sched. a \<noteq> w \<longrightarrow>
              pc' a = Finished (Inl ClaimedByAnother) \<or> pc' a = Finished (Inl TaskNotOpen))"
proof -
  let ?q = "requester_id r0"
  let ?ok = "Finished (Inr ''Task claimed. Get to work.'')"
  have "claim_inv s0 t ?q ({} \<union> set sched) (run_claims t sched (s0, idle))"
    by (rule claim_inv_run [OF assms(1,2,3) claim_inv_start])
  then have inv: "claim_inv s0 t ?q (set sched) (s', pc')"
    using assms(5) by simp
  obtain a0 n0 where e0: "(a0, n0) \<in> set sched"
    using assms(4) by (cases sched) auto
  have fin: "\<exists>res. pc' a = Finished res" if "(a, k) \<in> set sched" for a k
    using assms(6) that by auto
  from inv consider
      (fresh) "\<forall>b. pc' b = AtCheck \<or> pc' b = AtUpdate ?q"
    | (claimed) w m where "(w, m) \<in> set sched" "agents s0 w \<noteq> None" "w \<noteq> ?q"
        "\<forall>b. b \<noteq> w \<longrightarrow> loser_pc ?q (pc' b)"
        "(s' = claim_update w t m s0 \<and> pc' w = AtVerify ?q) \<or>
         (s' = snd (post_claim (Some w) t m s0) \<and> pc' w = ?ok)"
    by (auto simp add: claim_inv_def)
  then show ?thesis
  proof cases
    case fresh
    with fin [OF e0] show ?thesis by (metis claim_pc.distinct(5,9))
  next
    case claimed
    have won: "s' = snd (post_claim (Some w) t m s0)" "pc' w = ?ok"
      using claimed(5) fin [OF claimed(1)] by auto
    have store: "tasks s' t = Some (r0\<lparr>status := Claimed, worker_id := Some w, claimed_at := Some m\<rparr>)"
      using claimed_store(1) [OF assms(1,2) claimed(2,3), of s' m] won(1) by simp
    have losers: "pc' a = Finished (Inl ClaimedByAnother) \<or> pc' a = Finished (Inl TaskNotOpen)"
      if "(a, k) \<in> set sched" "a \<noteq> w" for a k
    proof -
      have "loser_pc ?q (pc' a)" using claimed(4) that(2) by simp
      with fin [OF that(1)] show ?thesis by (auto simp add: loser_pc_def)
    qed
    have "(w, m) \<in> set sched \<and> pc' w = ?ok \<and> s' = snd (post_claim (Some w) t m s0) \<and>
          map_option status (tasks s' t) = Some Claimed \<and>
          map_option worker_id (tasks s' t) = Some (Some w) \<and>
          (\<forall>(a, k) \<in> set sched. a \<noteq> w \<longrightarrow>
              pc' a = Finished (Inl ClaimedByAnother) \<or> pc' a = Finished (Inl TaskNotOpen))"
      using claimed(1) won store losers by auto
    then show ?thesis by blast
  qed
qed

lemma run_claims_append:
  "run_claims t (xs @ ys) run = run_claims t ys (run_claims t xs run)"
  by (simp add: run_claims_def)

lemma run_claims_Cons:
  "run_claims t (e # sched) run = run_claims t sched (claim_step t e run)"
  by (simp add: run_claims_def)

lemma claim_step_other:
  "b \<noteq> a \<Longrightarrow> snd (claim_step t (a, n) (s, pc)) b = pc b"
  by (simp add: claim_step_def split: claim_pc.split option.split prod.split)

lemma claim_step_finished:
  "pc b = Finished res \<Longrightarrow> snd (claim_step t (a, n) (s, pc)) b = Finished res"
  by (cases "b = a") (simp_all add: claim_step_def split: claim_pc.split option.split prod.split)

lemma claim_step_passed:
  assumes "passed_check (pc b)"
  shows "passed_check (snd (claim_step t (a, n) (s, pc)) b)"
proof (cases "b = a")
  case False
  then show ?thesis using assms by (simp add: claim_step_other)
next
  case True
  then show ?thesis
    using assms
    by (cases "pc a") (simp_all add: claim_step_def claim_finish_def Let_def split: prod.split)
qed

lemma run_claims_unscheduled:
  "a \<notin> fst ` set sched \<Longrightarrow> snd (run_claims t sched run) a = snd run a"
proof (induction sched arbitrary: run)
  case Nil
  then show ?case by (simp add: run_claims_def)
next
  case (Cons e sched)
  obtain b n where e: "e = (b, n)" by (cases e)
  obtain s pc where run: "run = (s, pc)" by (cases run)
  have "b \<noteq> a" using Cons.prems e by auto
  then have "snd (claim_step t e run) a = snd run a"
    using claim_step_other [of a b t n s pc] e run by simp
  moreover have "a \<notin> fst ` set sched" using Cons.prems by auto
  ultimately show ?case using Cons.IH [of "claim_step t e run"] by (simp add: run_claims_Cons)
qed

lemma run_claims_finished:
  "snd run b = Finished res \<Longrightarrow> snd (run_claims t sched run) b = Finished res"
proof (induction sched arbitrary: run)
  case Nil
  then show ?case by (simp add: run_claims_def)
next
  case (Cons e sched)
  obtain a n where e: "e = (a, n)" by (cases e)
  obtain s pc where run: "run = (s, pc)" by (cases run)
  have "snd (claim_step t e run) b = Finished res"
    using claim_step_finished [of pc b res t a n s] Cons.prems e run by simp
  then show ?case using Cons.IH [of "claim_step t e run"] by (simp add: run_claims_Cons)
qed

lemma run_claims_passed:
  "passed_check (snd run b) \<Longrightarrow> passed_check (snd (run_claims t sched run) b)"
proof (induction sched arbitrary: run)
  case Nil
  then show ?case by (simp add: run_claims_def)
next
  case (Cons e sched)
  obtain a n where e: "e = (a, n)" by (cases e)
  obtain s pc where run: "run = (s, pc)" by (cases run)
  have "passed_check (snd (claim_step t e run) b)"
    using claim_step_passed [of pc b t a n s] Cons.prems e run by simp
  then show ?case using Cons.IH [of "claim_step t e run"] by (simp add: run_claims_Cons)
qed

lemma loser_answer:
  assumes t0: "tasks s0 t = Some r0" "status r0 = Open"
    and valid: "\<forall>(a, n) \<in> set sched. agents s0 a \<noteq> None \<and> a \<noteq> requester_id r0"
    and a: "(a, k) \<in> set sched"
    and fin: "snd (run_claims t sched (s0, idle)) a = Finished (Inl ClaimedByAnother) \<or>
              snd (run_claims t sched (s0, idle)) a = Finished (Inl TaskNotOpen)"
  shows "snd (run_claims t sched (s0, idle)) a =
           Finished (Inl (if map_option status (tasks (first_read t sched a (s0, idle)) t) = Some Open
                          then ClaimedByAnother else TaskNotOpen))"
proof -
  let ?q = "requester_id r0"
  let ?P = "\<lambda>e. fst e \<noteq> a"
  let ?pre = "takeWhile ?P sched"
  have ne: "dropWhile ?P sched \<noteq> []"
    using a by (force simp add: dropWhile_eq_Nil_conv)
  then obtain e post where rest: "dropWhile ?P sched = e # post"
    by (cases "dropWhile ?P sched") auto
  have "\<not> ?P e" using hd_dropWhile [OF ne] rest by simp
  then obtain k1 where e: "e = (a, k1)" by (cases e) auto
  have sched: "sched = ?pre @ (a, k1) # post"
    using takeWhile_dropWhile_id [of ?P sched] rest e by simp
  obtain s1 pc1 where r1: "run_claims t ?pre (s0, idle) = (s1, pc1)"
    by (cases "run_claims t ?pre (s0, idle)")
  have fr: "first_read t sched a (s0, idle) = s1"
    by (simp add: first_read_def r1)
  have "a \<notin> fst ` set ?pre" by (auto dest: set_takeWhileD)
  then have "snd (run_claims t ?pre (s0, idle)) a = snd (s0, idle) a"
    by (rule run_claims_unscheduled)
  then have pa: "pc1 a = AtCheck" unfolding r1 by (simp add: idle_def)
  have "\<forall>(a, n) \<in> set ?pre. agents s0 a \<noteq> None \<and> a \<noteq> ?q"
    using valid by (auto dest: set_takeWhileD)
  then have "claim_inv s0 t ?q ({} \<union> set ?pre) (run_claims t ?pre (s0, idle))"
    by (rule claim_inv_run [OF t0 _ claim_inv_start])
  then have inv: "claim_inv s0 t ?q (set ?pre) (s1, pc1)" by (simp add: r1)
  have "(a, k1) \<in> set sched" using sched by (metis in_set_conv_decomp)
  then have ag: "agents s0 a \<noteq> None" "a \<noteq> ?q" using valid by auto
  have final: "run_claims t sched (s0, idle) = run_claims t post (claim_step t (a, k1) (s1, pc1))"
    using sched run_claims_append [of t ?pre "(a, k1) # post" "(s0, idle)"] r1
    by (simp add: run_claims_Cons)
  from inv consider
      (fresh) "s1 = s0"
    | (claimed) w m where "agents s0 w \<noteq> None" "w \<noteq> ?q"
        "s1 = claim_update w t m s0 \<or> s1 = snd (post_claim (Some w) t m s0)"
    by (auto simp add: claim_inv_def)
  then show ?thesis
  proof cases
    case fresh
    have "claim_step t (a, k1) (s1, pc1) = (s0, pc1(a := AtUpdate ?q))"
      using fresh pa ag t0 by (auto simp add: claim_step_def authenticate_def claim_check_def)
    then have "passed_check (snd (claim_step t (a, k1) (s1, pc1)) a)" by simp
    then have "passed_check (snd (run_claims t sched (s0, idle)) a)"
      unfolding final by (rule run_claims_passed)
    with fin have "snd (run_claims t sched (s0, idle)) a = Finished (Inl ClaimedByAnother)"
      by auto
    then show ?thesis using fresh t0 by (simp add: fr)
  next
    case claimed
    have store: "tasks s1 t = Some (r0\<lparr>status := Claimed, worker_id := Some w, claimed_at := Some m\<rparr>)"
      "agents s1 = agents s0"
      using claimed_store [OF t0 claimed(1,2), of s1 m] claimed(3) by blast+
    have "claim_step t (a, k1) (s1, pc1) = (s1, pc1(a := Finished (Inl TaskNotOpen)))"
      using pa ag store by (auto simp add: claim_step_def authenticate_def claim_check_def)
    then have "snd (claim_step t (a, k1) (s1, pc1)) a = Finished (Inl TaskNotOpen)" by simp
    then have "snd (run_claims t sched (s0, idle)) a = Finished (Inl TaskNotOpen)"
      unfolding final by (rule run_claims_finished)
    then show ?thesis using store by (simp add: fr)
  qed
qed

lemma demo1_carol: "agents demo1 ''C'' = Some (plain_agent ''Carol'' 100 85)"
  by (simp add: demo1_def post_task_others demo0_carol)

lemma demo1_task: "tasks demo1 ''T'' = Some demo_task" "status demo_task = Open"
  "requester_id demo_task = ''A''"
  by (simp_all add: demo1_fields demo_task_def new_task_def)

lemmas claim_eval =
  run_claims_def claim_step_def idle_def authenticate_def claim_check_def claim_update_def
  claim_finish_def claim_verify_def tasks_update_task demo1_fields demo1_carol new_task_def

lemma demo_interleaved_pcs:
  "snd (run_claims ''T'' demo_interleaved (demo1, idle)) ''B'' =
     Finished (Inr ''Task claimed. Get to work.'')"
  "snd (run_claims ''T'' demo_interleaved (demo1, idle)) ''C'' = Finished (Inl ClaimedByAnother)"
  by (simp_all add: demo_interleaved_def claim_eval)

lemma demo_sequential_pcs:
  "snd (run_claims ''T'' demo_sequential (demo1, idle)) ''B'' =
     Finished (Inr ''Task claimed. Get to work.'')"
  "snd (run_claims ''T'' demo_sequential (demo1, idle)) ''C'' = Finished (Inl TaskNotOpen)"
  by (simp_all add: demo_sequential_def claim_eval)

text \<open>
  Claim C2, as the code has it. The handler of \<^verbatim>\<open>POST /:id/claim\<close> is run as its three
  database statements (first read with the checks, conditional UPDATE, read-back), and
  the statements of several callers are interleaved in any order; a schedule names the
  caller that moves next and the clock it reads. Let the task be \<open>open\<close>, every caller
  an authenticated agent other than the requester, and let every caller have finished.
  Then exactly one caller succeeds, the store is exactly what that caller's claim alone
  produces from the initial store (status \<open>claimed\<close>, worker equal to that caller, one
  log entry, one notification), and every other caller has received 409
  \<open>ClaimedByAnother\<close> if the task was still open at its first read, and 400
  \<open>TaskNotOpen\<close> if it was not (its first read came after the winner's update). The
  task row has a single worker column, so two workers at once cannot be stored.
\<close>

theorem one_claim_wins:
  assumes "tasks s0 t = Some r0" and "status r0 = Open"
    and "\<forall>(a, n) \<in> set sched. agents s0 a \<noteq> None \<and> a \<noteq> requester_id r0"
    and "sched \<noteq> []"
    and "run_claims t sched (s0, idle) = (s', pc')"
    and "\<forall>(a, n) \<in> set sched. \<exists>res. pc' a = Finished res"
  shows "\<exists>w n. (w, n) \<in> set sched \<and>
           pc' w = Finished (Inr ''Task claimed. Get to work.'') \<and>
           s' = snd (post_claim (Some w) t n s0) \<and>
           map_option status (tasks s' t) = Some Claimed \<and>
           map_option worker_id (tasks s' t) = Some (Some w) \<and>
           (\<forall>(a, k) \<in> set sched. a \<noteq> w \<longrightarrow>
              pc' a = Finished (Inl
                (if map_option status (tasks (first_read t sched a (s0, idle)) t) = Some Open
                 then ClaimedByAnother else TaskNotOpen)))"
proof -
  from claim_run_outcome [OF assms]
  obtain w n where w: "(w, n) \<in> set sched"
    "pc' w = Finished (Inr ''Task claimed. Get to work.'')"
    "s' = snd (post_claim (Some w) t n s0)"
    "map_option status (tasks s' t) = Some Claimed"
    "map_option worker_id (tasks s' t) = Some (Some w)"
    and losers: "\<forall>(a, k) \<in> set sched. a \<noteq> w \<longrightarrow>
       pc' a = Finished (Inl ClaimedByAnother) \<or> pc' a = Finished (Inl TaskNotOpen)"
    by blast
  have pc': "snd (run_claims t sched (s0, idle)) = pc'"
    using assms(5) by simp
  have "pc' a = Finished (Inl
          (if map_option status (tasks (first_read t sched a (s0, idle)) t) = Some Open
           then ClaimedByAnother else TaskNotOpen))"
    if "(a, k) \<in> set sched" "a \<noteq> w" for a k
  proof -
    have "pc' a = Finished (Inl ClaimedByAnother) \<or> pc' a = Finished (Inl TaskNotOpen)"
      using losers that by auto
    then show ?thesis
      using loser_answer [OF assms(1,2,3) that(1)] by (simp only: pc')
  qed
  then have "\<forall>(a, k) \<in> set sched. a \<noteq> w \<longrightarrow>
        pc' a = Finished (Inl
          (if map_option status (tasks (first_read t sched a (s0, idle)) t) = Some Open
           then ClaimedByAnother else TaskNotOpen))"
    by auto
  with w show ?thesis by blast
qed

lemma demo_interleaved_first_read:
  "first_read ''T'' demo_interleaved ''B'' (demo1, idle) = demo1"
  "first_read ''T'' demo_interleaved ''C'' (demo1, idle) = demo1"
  by (simp_all add: first_read_def demo_interleaved_def claim_eval)

lemma demo_sequential_first_read:
  "first_read ''T'' demo_sequential ''C'' (demo1, idle) = demo2"
  by (simp add: first_read_def demo_sequential_def demo2_def post_claim_sequential idle_def)

theorem one_claim_wins_witness:
  "tasks demo1 ''T'' = Some demo_task \<and> status demo_task = Open \<and>
   requester_id demo_task = ''A'' \<and>
   agents demo1 ''B'' \<noteq> None \<and> agents demo1 ''C'' \<noteq> None \<and>
   set demo_interleaved = {(''B'', 1), (''C'', 2)} \<and>
   snd (run_claims ''T'' demo_interleaved (demo1, idle)) ''B'' =
     Finished (Inr ''Task claimed. Get to work.'') \<and>
   map_option status (tasks (first_read ''T'' demo_interleaved ''C'' (demo1, idle)) ''T'') =
     Some Open \<and>
   snd (run_claims ''T'' demo_interleaved (demo1, idle)) ''C'' = Finished (Inl ClaimedByAnother) \<and>
   fst (run_claims ''T'' demo_interleaved (demo1, idle)) = snd (post_claim (Some ''B'') ''T'' 1 demo1) \<and>
   map_option worker_id (tasks (fst (run_claims ''T'' demo_interleaved (demo1, idle))) ''T'') =
     Some (Some ''B'')"
proof -
  let ?run = "run_claims ''T'' demo_interleaved (demo1, idle)"
  have set: "set demo_interleaved = {(''B'', 1), (''C'', 2)}"
    by (auto simp add: demo_interleaved_def)
  have h3: "\<forall>(a, n) \<in> set demo_interleaved. agents demo1 a \<noteq> None \<and> a \<noteq> requester_id demo_task"
    by (simp add: set demo1_fields demo1_carol demo1_task)
  have h4: "demo_interleaved \<noteq> []" by (simp add: demo_interleaved_def)
  have h5: "?run = (fst ?run, snd ?run)" by simp
  have h6: "\<forall>(a, n) \<in> set demo_interleaved. \<exists>res. snd ?run a = Finished res"
    by (simp add: set demo_interleaved_pcs)
  have open_at_read:
    "map_option status (tasks (first_read ''T'' demo_interleaved ''C'' (demo1, idle)) ''T'') = Some Open"
    by (simp add: demo_interleaved_first_read demo1_task)
  from one_claim_wins [OF demo1_task(1,2) h3 h4 h5 h6]
  obtain w n where w: "(w, n) \<in> set demo_interleaved"
    "snd ?run w = Finished (Inr ''Task claimed. Get to work.'')"
    "fst ?run = snd (post_claim (Some w) ''T'' n demo1)"
    "map_option worker_id (tasks (fst ?run) ''T'') = Some (Some w)"
    and losers: "\<forall>(a, k) \<in> set demo_interleaved. a \<noteq> w \<longrightarrow>
       snd ?run a = Finished (Inl
         (if map_option status (tasks (first_read ''T'' demo_interleaved a (demo1, idle)) ''T'') =
               Some Open
          then ClaimedByAnother else TaskNotOpen))"
    by blast
  have wn: "w = ''B'' \<and> n = 1"
    using w(1,2) demo_interleaved_pcs(2) by (auto simp add: set)
  have carol: "snd ?run ''C'' = Finished (Inl ClaimedByAnother)"
    using losers wn open_at_read by (simp add: set)
  from wn w carol open_at_read demo1_task set demo1_fields(2) demo1_carol show ?thesis
    by simp
qed

text \<open>
  Bob and Carol claim the open task \<open>T\<close>, and Bob's request is served before Carol's:
  Bob succeeds and Carol receives 400 \<open>TaskNotOpen\<close>, not 409 \<open>ClaimedByAnother\<close>.
  The same holds in the interleaved model when all three statements of Bob run first.
\<close>

theorem late_claimer_gets_400_counterexample:
  "map_option status (tasks demo1 ''T'') = Some Open \<and>
   fst (post_claim (Some ''B'') ''T'' 1 demo1) = Inr ''Task claimed. Get to work.'' \<and>
   fst (post_claim (Some ''C'') ''T'' 2 demo2) = Inl TaskNotOpen \<and>
   snd (run_claims ''T'' demo_sequential (demo1, idle)) ''B'' =
     Finished (Inr ''Task claimed. Get to work.'') \<and>
   snd (run_claims ''T'' demo_sequential (demo1, idle)) ''C'' = Finished (Inl TaskNotOpen) \<and>
   TaskNotOpen \<noteq> ClaimedByAnother \<and>
   http_status TaskNotOpen = 400 \<and> http_status ClaimedByAnother = 409"
proof -
  have c2: "agents demo2 ''C'' = Some (plain_agent ''Carol'' 100 85)"
    by (simp add: demo2_def post_claim_agents demo1_carol)
  have "fst (post_claim (Some ''C'') ''T'' 2 demo2) = Inl TaskNotOpen"
    using c2 demo2_fields(4)
    by (simp add: post_claim_def authenticate_def claim_check_def demo_task_def new_task_def)
  then show ?thesis
    using demo2_fields(1) demo_sequential_pcs
    by (simp add: demo1_fields new_task_def)
qed

end
